theory Spec2Isabelle
  imports Main
begin

section \<open>The campaign scheduler of leadsender\<close>

text \<open>
  A shallow embedding of \<^verbatim>\<open>CampaignScheduler\<close> (the class of
  \<^verbatim>\<open>electron/services/CampaignScheduler.ts\<close>): the SQLite tables it reads and
  writes, its in-memory registry of \<^verbatim>\<open>CampaignState\<close> objects, the timers it arms
  with \<^verbatim>\<open>setTimeout\<close>, and the sends that are waiting for the transport.

  The program runs on one JavaScript event loop, and the store (better-sqlite3) is
  synchronous. A callback runs without interruption until it returns or reaches an
  \<^verbatim>\<open>await\<close>. An \<^verbatim>\<open>await\<close> on a call that has already returned continues in a
  microtask: after the callback that is running, before any other timer. An \<^verbatim>\<open>await\<close>
  on the transport continues when the transport answers, after any number of other
  callbacks. So a worker cycle is modelled in pieces: its start, up to the first
  \<^verbatim>\<open>await\<close>; the microtask that continues it; and, for a cycle that reached the
  transport, \<open>sendResolved\<close>.

  Left out: console output, the rendering of the message text and the payload handed to
  the transport, \<^verbatim>\<open>resumeRunningCampaigns\<close> and the scheduled-campaign checker. The
  store is taken never to throw, so \<^verbatim>\<open>sendSuccessful\<close> is always true and the retry
  delay of 60 to 120 seconds is never drawn; a window is taken to be open for
  \<^verbatim>\<open>notifyRenderer\<close>.
\<close>

subsection \<open>Tables\<close>

datatype campaign_status = Draft | Running | Paused | Stopped | Completed

datatype contact_status = Pending | Sending | Sent | Failed

record campaign =
  c_id :: string
  c_name :: string
  c_message :: string
  c_status :: campaign_status
  min_delay :: int
  max_delay :: int
  max_messages_per_day :: int
  start_hour :: int
  end_hour :: int
  started_at :: "string option"
  completed_at :: "string option"
  media_path :: "string option"
  media_type :: "string option"
  media_caption :: "string option"

record campaign_contact =
  cc_id :: string
  cc_campaign_id :: string
  cc_phone_number :: string
  cc_status :: contact_status
  sent_by_account_id :: "string option"
  sent_at :: "string option"
  cc_error :: "string option"

record contact =
  ct_id :: string
  ct_phone_number :: string
  ct_name :: "string option"

record tag =
  tag_id :: string
  tag_name :: string

record activity =
  a_type :: string
  a_message :: string
  a_related_id :: "string option"
  a_timestamp :: string

record database =
  campaigns :: "campaign list"
  campaign_accounts :: "(string \<times> string) list"
  campaign_contacts :: "campaign_contact list"
  contacts :: "contact list"
  tags :: "tag list"
  contact_tags :: "(string \<times> string) list"
  activities :: "activity list"
  stats :: "(string \<times> int) list"

subsection \<open>JavaScript maps, strings and the clock\<close>

text \<open>
  A \<^verbatim>\<open>Map\<close> keeps its keys in insertion order: \<open>map_set\<close> overwrites the value of
  a key in place and appends a new key.
\<close>

fun map_set :: "'k \<Rightarrow> 'v \<Rightarrow> ('k \<times> 'v) list \<Rightarrow> ('k \<times> 'v) list" where
  "map_set k v [] = [(k, v)]"
| "map_set k v (p # ps) = (if fst p = k then (k, v) # ps else p # map_set k v ps)"

definition map_delete :: "'k \<Rightarrow> ('k \<times> 'v) list \<Rightarrow> ('k \<times> 'v) list" where
  "map_delete k ps = filter (\<lambda>p. fst p \<noteq> k) ps"

text \<open>\<^verbatim>\<open>String.prototype.includes\<close>: some suffix of the text starts with the pattern.\<close>

fun str_includes :: "string \<Rightarrow> string \<Rightarrow> bool" where
  "str_includes [] pat = (pat = [])"
| "str_includes (c # cs) pat = (take (length pat) (c # cs) = pat \<or> str_includes cs pat)"

text \<open>
  \<^verbatim>\<open>String.prototype.toLowerCase\<close> belongs to the JavaScript runtime, not to the
  program: it follows the case mappings of Unicode, which lower the letters A to Z and
  many characters outside ASCII as well (the Kelvin sign U+212A becomes \<^verbatim>\<open>k\<close>). The
  scheduler is therefore modelled over an arbitrary function \<open>toLowerCase\<close>, a field
  of \<open>env\<close> below. On a text of ASCII characters the runtime's function is
  \<open>asciiToLowerCase\<close>: it lowers A to Z and keeps every other character. (A text with
  characters that \<^typ>\<open>char\<close> does not have is taken in UTF-8: the patterns of the
  scheduler are ASCII, and an ASCII text occurs in the UTF-8 bytes exactly where it occurs
  in the text.)
\<close>

definition asciiToLowerChar :: "char \<Rightarrow> char" where
  "asciiToLowerChar c =
     (let n = (of_char c :: nat) in if 65 \<le> n \<and> n \<le> 90 then char_of (n + 32) else c)"

definition asciiToLowerCase :: "string \<Rightarrow> string" where
  "asciiToLowerCase s = map asciiToLowerChar s"

text \<open>
  One reading of the clock: \<^verbatim>\<open>Date.now()\<close>, \<^verbatim>\<open>toISOString()\<close> and the local
  time of day in milliseconds, from which \<^verbatim>\<open>getHours()\<close> follows. All readings
  inside one uninterrupted block are taken to be the same instant.
\<close>

record clock =
  now_ms :: int
  iso :: string
  local_ms_of_day :: int

definition getHours :: "clock \<Rightarrow> int" where
  "getHours clk = local_ms_of_day clk div 3600000"

text \<open>\<^verbatim>\<open>new Date().toISOString().split('T')[0]\<close>\<close>

definition dateKey :: "clock \<Rightarrow> string" where
  "dateKey clk = takeWhile (\<lambda>c. c \<noteq> CHR ''T'') (iso clk)"

text \<open>
  The delay \<^verbatim>\<open>d.getTime() - now.getTime()\<close> where \<^verbatim>\<open>d\<close> is today plus
  \<open>days\<close> days, set to \<^verbatim>\<open>setHours(start_hour, 0, 0, 0)\<close> (days of 24 hours).
\<close>

definition msUntilStartHour :: "clock \<Rightarrow> int \<Rightarrow> int \<Rightarrow> int" where
  "msUntilStartHour clk days h = days * 86400000 + h * 3600000 - local_ms_of_day clk"

subsection \<open>Working hours\<close>

text \<open>
  The test of \<^verbatim>\<open>scheduleNextMessageForAccount\<close> that sends the worker to sleep:
  \<^verbatim>\<open>currentHour < campaign.start_hour || currentHour >= campaign.end_hour\<close>.
\<close>

definition outsideWorkingHours :: "int \<Rightarrow> int \<Rightarrow> int \<Rightarrow> bool" where
  "outsideWorkingHours currentHour startHour endHour =
     (currentHour < startHour \<or> currentHour \<ge> endHour)"

text \<open>
  The test of \<^verbatim>\<open>resumeRunningCampaigns\<close> that starts at once:
  \<^verbatim>\<open>currentHour >= campaign.start_hour && currentHour < campaign.end_hour\<close>.
\<close>

definition isWithinWindow :: "int \<Rightarrow> int \<Rightarrow> int \<Rightarrow> bool" where
  "isWithinWindow currentHour startHour endHour =
     (currentHour \<ge> startHour \<and> currentHour < endHour)"

subsection \<open>Classifying a send error\<close>

text \<open>
  The patterns of \<^verbatim>\<open>isPermanentFailure\<close>, in the order of the source, and the
  disjunction of \<^verbatim>\<open>errorMsg.includes(...)\<close> over them.
\<close>

definition permanentPatterns :: "string list" where
  "permanentPatterns =
     [''banned'', ''blocked'', ''restricted'', ''account has been'',
      ''not registered'', ''phone number not registered'', ''invalid phone'',
      ''phone number must include'', ''invalid number'', ''does not exist'',
      ''chat not found'', ''contact not found'', ''recipient not found'',
      ''recipient not available'', ''user not found'', ''number is not on whatsapp'',
      ''you have been blocked'', ''this contact blocked you'', ''privacy settings'',
      ''cannot send message to this contact'',
      ''invalid format'', ''malformed'', ''invalid input'']"

definition isPermanentFailure :: "string \<Rightarrow> bool" where
  "isPermanentFailure errorMsg = list_ex (str_includes errorMsg) permanentPatterns"

subsection \<open>The scheduler's state\<close>

text \<open>
  \<^verbatim>\<open>interface CampaignState\<close>. A timer is known to the state by the handle that
  \<^verbatim>\<open>setTimeout\<close> returned.
\<close>

record CampaignState =
  isRunning :: bool
  accountTimeouts :: "(string \<times> nat) list"
  messagesSentToday :: "(string \<times> int) list"
  lastResetDate :: string

text \<open>
  An armed timer of the event loop; when due it calls
  \<^verbatim>\<open>scheduleNextMessageForAccount(campaignId, accountId)\<close>.
\<close>

record timer =
  t_handle :: nat
  t_campaign :: string
  t_account :: string
  t_due :: int

text \<open>
  A worker cycle suspended at \<^verbatim>\<open>await this.whatsappManager.sendMessage(...)\<close>: the
  locals its continuation uses, among them the reference \<^verbatim>\<open>state\<close> to the
  \<^verbatim>\<open>CampaignState\<close> object and the claimed row \<^verbatim>\<open>contact\<close>.
\<close>

record in_flight =
  f_campaign :: string
  f_account :: string
  f_state :: nat
  f_contact :: campaign_contact

datatype notification =
  CampaignProgress string string contact_status "string option" "string option"
| CampaignCompleted string

text \<open>
  \<open>activeCampaigns\<close> maps a campaign id to a reference; \<open>objects\<close> holds the
  \<^verbatim>\<open>CampaignState\<close> objects by reference, so that a suspended cycle keeps its
  object after \<^verbatim>\<open>activeCampaigns.delete\<close>.
\<close>

record sched =
  db :: database
  activeCampaigns :: "(string \<times> nat) list"
  objects :: "(nat \<times> CampaignState) list"
  timers :: "timer list"
  next_handle :: nat
  awaiting :: "in_flight list"
  notifications :: "notification list"

text \<open>
  What a cycle reads from outside: \<^verbatim>\<open>whatsappManager.isConnected\<close>, the value
  that \<^verbatim>\<open>getRandomDelay(campaign.min_delay, campaign.max_delay)\<close> returns in the
  cycle of an account, and the runtime's \<^verbatim>\<open>toLowerCase\<close>.
\<close>

record env =
  isConnected :: "string \<Rightarrow> bool"
  randomDelay :: "string \<Rightarrow> int"
  toLowerCase :: "string \<Rightarrow> string"

text \<open>
  \<^verbatim>\<open>(error as Error).message?.toLowerCase() || ''\<close>: an error without a message
  gives the empty text.
\<close>

definition errorMsgOf :: "env \<Rightarrow> string option \<Rightarrow> string" where
  "errorMsgOf e message = (case message of None \<Rightarrow> [] | Some m \<Rightarrow> toLowerCase e m)"

datatype send_result = SendOk | SendError "string option"

subsection \<open>Store and timer primitives\<close>

text \<open>\<^verbatim>\<open>SELECT * FROM campaigns WHERE id = ?\<close>\<close>

definition getCampaign :: "database \<Rightarrow> string \<Rightarrow> campaign option" where
  "getCampaign d cid = find (\<lambda>c. c_id c = cid) (campaigns d)"

text \<open>\<^verbatim>\<open>UPDATE campaigns SET ... WHERE id = ?\<close>\<close>

definition updateCampaign :: "string \<Rightarrow> (campaign \<Rightarrow> campaign) \<Rightarrow> database \<Rightarrow> database" where
  "updateCampaign cid f d =
     d\<lparr>campaigns := map (\<lambda>c. if c_id c = cid then f c else c) (campaigns d)\<rparr>"

text \<open>\<^verbatim>\<open>UPDATE campaign_contacts SET ... WHERE id = ?\<close>\<close>

definition updateContact ::
  "string \<Rightarrow> (campaign_contact \<Rightarrow> campaign_contact) \<Rightarrow> database \<Rightarrow> database" where
  "updateContact ccid f d =
     d\<lparr>campaign_contacts := map (\<lambda>cc. if cc_id cc = ccid then f cc else cc) (campaign_contacts d)\<rparr>"

text \<open>\<^verbatim>\<open>INSERT INTO activities ...\<close> (the row's uuid is left out).\<close>

definition logActivity :: "string \<Rightarrow> string \<Rightarrow> string option \<Rightarrow> clock \<Rightarrow> database \<Rightarrow> database" where
  "logActivity ty msg related clk d =
     d\<lparr>activities := activities d @
        [\<lparr>a_type = ty, a_message = msg, a_related_id = related, a_timestamp = iso clk\<rparr>]\<rparr>"

text \<open>
  \<^verbatim>\<open>this.activeCampaigns.get(campaignId)\<close>: the reference and the object it points
  to. Objects are never removed, so a reference of the registry always has its object.
\<close>

definition stateOf :: "sched \<Rightarrow> string \<Rightarrow> (nat \<times> CampaignState) option" where
  "stateOf s cid =
     (case map_of (activeCampaigns s) cid of
        None \<Rightarrow> None
      | Some r \<Rightarrow> (case map_of (objects s) r of None \<Rightarrow> None | Some st \<Rightarrow> Some (r, st)))"

text \<open>
  The reference of a new object is one that no object has: one more than the largest
  reference in use.
\<close>

definition newRef :: "(nat \<times> CampaignState) list \<Rightarrow> nat" where
  "newRef objs = foldr (\<lambda>p n. max (Suc (fst p)) n) objs 0"

text \<open>An assignment to fields of the object at a reference.\<close>

definition updateState :: "nat \<Rightarrow> (CampaignState \<Rightarrow> CampaignState) \<Rightarrow> sched \<Rightarrow> sched" where
  "updateState r f s =
     (case map_of (objects s) r of
        None \<Rightarrow> s
      | Some st \<Rightarrow> s\<lparr>objects := map_set r (f st) (objects s)\<rparr>)"

text \<open>
  \<^verbatim>\<open>setTimeout(() => this.scheduleNextMessageForAccount(campaignId, accountId), delay)\<close>;
  the handle it returns is \<open>next_handle\<close>. (The delays of the scheduler are positive
  and below the 2^31 milliseconds at which a timer fires at once.)
\<close>

definition setTimeout_wake :: "string \<Rightarrow> string \<Rightarrow> int \<Rightarrow> clock \<Rightarrow> sched \<Rightarrow> sched" where
  "setTimeout_wake cid aid delay clk s =
     s\<lparr>timers := timers s @
          [\<lparr>t_handle = next_handle s, t_campaign = cid, t_account = aid,
            t_due = now_ms clk + delay\<rparr>],
       next_handle := Suc (next_handle s)\<rparr>"

text \<open>
  \<^verbatim>\<open>const timeout = setTimeout(() => this.scheduleNextMessageForAccount(...), delay);
  state.accountTimeouts.set(accountId, timeout);\<close>
\<close>

definition armWake :: "nat \<Rightarrow> string \<Rightarrow> string \<Rightarrow> int \<Rightarrow> clock \<Rightarrow> sched \<Rightarrow> sched" where
  "armWake r cid aid delay clk s =
     updateState r (\<lambda>st. st\<lparr>accountTimeouts := map_set aid (next_handle s) (accountTimeouts st)\<rparr>)
       (setTimeout_wake cid aid delay clk s)"

text \<open>\<^verbatim>\<open>clearTimeout\<close> for each of the handles; a handle that has fired is ignored.\<close>

definition clearTimeouts :: "nat list \<Rightarrow> sched \<Rightarrow> sched" where
  "clearTimeouts hs s = s\<lparr>timers := filter (\<lambda>t. t_handle t \<notin> set hs) (timers s)\<rparr>"

subsection \<open>Lifecycle operations\<close>

text \<open>
  The part of \<^verbatim>\<open>pauseCampaign\<close> and \<^verbatim>\<open>stopCampaign\<close> under
  \<^verbatim>\<open>if (state)\<close>, before \<^verbatim>\<open>activeCampaigns.delete\<close>.
\<close>

definition haltWorkers :: "string \<Rightarrow> sched \<Rightarrow> sched" where
  "haltWorkers cid s =
     (case stateOf s cid of
        None \<Rightarrow> s
      | Some (r, st) \<Rightarrow>
          updateState r (\<lambda>st. st\<lparr>isRunning := False, accountTimeouts := []\<rparr>)
            (clearTimeouts (map snd (accountTimeouts st)) s))"

definition pauseCampaign :: "string \<Rightarrow> sched \<Rightarrow> sched" where
  "pauseCampaign cid s =
     (let s1 = haltWorkers cid s
      in s1\<lparr>db := updateCampaign cid (\<lambda>c. c\<lparr>c_status := Paused\<rparr>) (db s1)\<rparr>)"

definition stopCampaign :: "clock \<Rightarrow> string \<Rightarrow> sched \<Rightarrow> sched" where
  "stopCampaign clk cid s =
     (let s1 = (case stateOf s cid of
                  None \<Rightarrow> s
                | Some _ \<Rightarrow> (haltWorkers cid s)
                             \<lparr>activeCampaigns := map_delete cid (activeCampaigns s)\<rparr>)
      in s1\<lparr>db := updateCampaign cid
                     (\<lambda>c. c\<lparr>c_status := Stopped, completed_at := Some (iso clk)\<rparr>) (db s1)\<rparr>)"

definition resetContacts :: "string \<Rightarrow> database \<Rightarrow> database" where
  "resetContacts cid d =
     d\<lparr>campaign_contacts :=
         map (\<lambda>cc. if cc_campaign_id cc = cid
                   then cc\<lparr>cc_status := Pending, sent_by_account_id := None,
                           sent_at := None, cc_error := None\<rparr>
                   else cc) (campaign_contacts d)\<rparr>"

definition resetCampaign :: "clock \<Rightarrow> string \<Rightarrow> sched \<Rightarrow> sched" where
  "resetCampaign clk cid s =
     (let s1 = stopCampaign clk cid s
      in s1\<lparr>db := updateCampaign cid
                     (\<lambda>c. c\<lparr>c_status := Draft, started_at := None, completed_at := None\<rparr>)
                     (resetContacts cid (db s1))\<rparr>)"

text \<open>
  The end of a campaign in \<^verbatim>\<open>sendNextMessageFromAccount\<close>, after
  \<^verbatim>\<open>await this.stopCampaign(campaignId)\<close>: the update to \<^verbatim>\<open>'completed'\<close>, the
  activity record and the notification.
\<close>

definition completeCampaign :: "clock \<Rightarrow> string \<Rightarrow> sched \<Rightarrow> sched" where
  "completeCampaign clk cid s =
     (let nm = (case getCampaign (db s) cid of
                  None \<Rightarrow> ''Unknown''
                | Some c \<Rightarrow> if c_name c = [] then ''Unknown'' else c_name c);
          d2 = updateCampaign cid
                 (\<lambda>c. c\<lparr>c_status := Completed, completed_at := Some (iso clk)\<rparr>) (db s);
          d3 = logActivity ''success''
                 (''Campaign '' @ [CHR 0x22] @ nm @ [CHR 0x22] @ '' completed'') (Some cid) clk d2
      in s\<lparr>db := d3, notifications := notifications s @ [CampaignCompleted cid]\<rparr>)"

subsection \<open>The claim queries\<close>

text \<open>
  \<^verbatim>\<open>SELECT c.phone_number FROM contacts c JOIN contact_tags ct ON c.id = ct.contact_id
  JOIN tags t ON ct.tag_id = t.id WHERE t.name = 'BlackList'\<close>
\<close>

definition blacklistPhones :: "database \<Rightarrow> string list" where
  "blacklistPhones d =
     [ct_phone_number c. c \<leftarrow> contacts d, ct \<leftarrow> contact_tags d, fst ct = ct_id c,
                         t \<leftarrow> tags d, snd ct = tag_id t, tag_name t = ''BlackList'']"

text \<open>
  \<^verbatim>\<open>WHERE cc.campaign_id = ? AND cc.status = 'pending' AND cc.phone_number NOT IN (...)
  LIMIT 1\<close>: the first such row of the table.
\<close>

definition claimable :: "database \<Rightarrow> string \<Rightarrow> campaign_contact \<Rightarrow> bool" where
  "claimable d cid cc =
     (cc_campaign_id cc = cid \<and> cc_status cc = Pending
      \<and> cc_phone_number cc \<notin> set (blacklistPhones d))"

definition selectNextPending :: "database \<Rightarrow> string \<Rightarrow> campaign_contact option" where
  "selectNextPending d cid = find (claimable d cid) (campaign_contacts d)"

definition blacklistedPending :: "database \<Rightarrow> string \<Rightarrow> campaign_contact \<Rightarrow> bool" where
  "blacklistedPending d cid cc =
     (cc_campaign_id cc = cid \<and> cc_status cc = Pending
      \<and> cc_phone_number cc \<in> set (blacklistPhones d))"

definition countBlacklistedPending :: "database \<Rightarrow> string \<Rightarrow> nat" where
  "countBlacklistedPending d cid = length (filter (blacklistedPending d cid) (campaign_contacts d))"

text \<open>
  \<^verbatim>\<open>UPDATE campaign_contacts SET status = 'failed', error = 'Contact in BlackList'
  WHERE campaign_id = ? AND status = 'pending' AND phone_number IN (...)\<close>
\<close>

definition markSkipped :: "string \<Rightarrow> database \<Rightarrow> database" where
  "markSkipped cid d =
     d\<lparr>campaign_contacts :=
         map (\<lambda>cc. if blacklistedPending d cid cc
                   then cc\<lparr>cc_status := Failed, cc_error := Some ''Contact in BlackList''\<rparr>
                   else cc) (campaign_contacts d)\<rparr>"

text \<open>\<^verbatim>\<open>SELECT COUNT(*) ... WHERE campaign_id = ? AND status = 'sending'\<close>\<close>

definition countSending :: "database \<Rightarrow> string \<Rightarrow> nat" where
  "countSending d cid =
     length (filter (\<lambda>cc. cc_campaign_id cc = cid \<and> cc_status cc = Sending) (campaign_contacts d))"

text \<open>
  The release of a cycle whose account is not connected:
  \<^verbatim>\<open>UPDATE campaign_contacts SET status = 'pending'
  WHERE campaign_id = ? AND status = 'sending' AND sent_by_account_id IS NULL\<close>
\<close>

definition releaseStuck :: "string \<Rightarrow> database \<Rightarrow> database" where
  "releaseStuck cid d =
     d\<lparr>campaign_contacts :=
         map (\<lambda>cc. if cc_campaign_id cc = cid \<and> cc_status cc = Sending
                      \<and> sent_by_account_id cc = None
                   then cc\<lparr>cc_status := Pending\<rparr> else cc) (campaign_contacts d)\<rparr>"

subsection \<open>The worker cycle\<close>

text \<open>\<^verbatim>\<open>state.messagesSentToday.get(accountId) || 0\<close>\<close>

definition sentTodayOf :: "CampaignState \<Rightarrow> string \<Rightarrow> int" where
  "sentTodayOf st aid = (case map_of (messagesSentToday st) aid of None \<Rightarrow> 0 | Some n \<Rightarrow> n)"

text \<open>The map \<^verbatim>\<open>state.accountTimeouts\<close> of the object at a reference.\<close>

definition timeoutsOf :: "sched \<Rightarrow> nat \<Rightarrow> (string \<times> nat) list" where
  "timeoutsOf s r = (case map_of (objects s) r of None \<Rightarrow> [] | Some st \<Rightarrow> accountTimeouts st)"

text \<open>
  \<^verbatim>\<open>resetDailyCountersIfNeeded\<close>: the counters of the campaign are cleared when the
  date of \<^verbatim>\<open>toISOString()\<close> differs from \<^verbatim>\<open>lastResetDate\<close>.
\<close>

definition resetDailyCountersIfNeeded :: "clock \<Rightarrow> string \<Rightarrow> sched \<Rightarrow> sched" where
  "resetDailyCountersIfNeeded clk cid s =
     (case stateOf s cid of
        None \<Rightarrow> s
      | Some (r, st) \<Rightarrow>
          if lastResetDate st \<noteq> dateKey clk
          then updateState r (\<lambda>st. st\<lparr>messagesSentToday := [], lastResetDate := dateKey clk\<rparr>) s
          else s)"

text \<open>
  Where \<^verbatim>\<open>sendNextMessageFromAccount\<close> stands when it first yields: it has returned;
  or it waits at \<^verbatim>\<open>await this.stopCampaign(campaignId)\<close>, \<^verbatim>\<open>stopCampaign\<close> having
  run; or it has claimed a contact and waits for the transport.
\<close>

datatype cycle_outcome = Returned | Stopping | Claimed campaign_contact

text \<open>
  \<^verbatim>\<open>sendNextMessageFromAccount\<close> up to its first \<^verbatim>\<open>await\<close>. \<open>r\<close> is the reference
  that \<^verbatim>\<open>this.activeCampaigns.get(campaignId)!\<close> gives.
\<close>

definition sendNextMessageFromAccount ::
  "clock \<Rightarrow> env \<Rightarrow> string \<Rightarrow> string \<Rightarrow> nat \<Rightarrow> sched \<Rightarrow> sched \<times> cycle_outcome" where
  "sendNextMessageFromAccount clk e cid aid r s =
     (case getCampaign (db s) cid of
        None \<Rightarrow> (s, Returned)
      | Some campaign \<Rightarrow>
         (case map_of (objects s) r of
            None \<Rightarrow> (s, Returned)
          | Some st \<Rightarrow>
              if sentTodayOf st aid \<ge> max_messages_per_day campaign
              then (armWake r cid aid (msUntilStartHour clk 1 (start_hour campaign)) clk s,
                    Returned)
              else if \<not> isConnected e aid
              then (s\<lparr>db := releaseStuck cid (db s)\<rparr>, Returned)
              else
                (case selectNextPending (db s) cid of
                   Some contact \<Rightarrow>
                     (s\<lparr>db := updateContact (cc_id contact) (\<lambda>cc. cc\<lparr>cc_status := Sending\<rparr>) (db s)\<rparr>,
                      Claimed contact)
                 | None \<Rightarrow>
                     (let s1 = (if countBlacklistedPending (db s) cid > 0
                                then s\<lparr>db := markSkipped cid (db s)\<rparr> else s)
                      in if countSending (db s1) cid > 0
                         then (armWake r cid aid 60000 clk s1, Returned)
                         else
                           (let s2 = (case map_of (accountTimeouts st) aid of
                                        None \<Rightarrow> s1
                                      | Some h \<Rightarrow>
                                          updateState r
                                            (\<lambda>st. st\<lparr>accountTimeouts :=
                                                        map_delete aid (accountTimeouts st)\<rparr>)
                                            (clearTimeouts [h] s1))
                            in if timeoutsOf s2 r = []
                               then (stopCampaign clk cid s2, Stopping)
                               else (s2, Returned))))))"

text \<open>
  The microtask that a started cycle leaves behind: the end of
  \<^verbatim>\<open>scheduleNextMessageForAccount\<close> after \<^verbatim>\<open>await this.sendNextMessageFromAccount\<close>
  (it arms the next wake), preceded, for a cycle that is ending the campaign, by the rest
  of \<^verbatim>\<open>sendNextMessageFromAccount\<close>. Both carry the reference \<^verbatim>\<open>state\<close>.
\<close>

datatype microtask = CycleTail nat | CompletionRest nat

text \<open>
  \<^verbatim>\<open>scheduleNextMessageForAccount\<close> up to its first \<^verbatim>\<open>await\<close>. A cycle that
  claimed a contact has started the send and is added to \<open>awaiting\<close>.
\<close>

definition cycleStart ::
  "clock \<Rightarrow> env \<Rightarrow> string \<Rightarrow> string \<Rightarrow> sched \<Rightarrow> sched \<times> microtask option" where
  "cycleStart clk e cid aid s =
     (case stateOf s cid of
        None \<Rightarrow> (s, None)
      | Some (r, st) \<Rightarrow>
          if \<not> isRunning st then (s, None)
          else
            (case getCampaign (db s) cid of
               None \<Rightarrow> (s, None)
             | Some campaign \<Rightarrow>
                 if outsideWorkingHours (getHours clk) (start_hour campaign) (end_hour campaign)
                 then (armWake r cid aid
                         (msUntilStartHour clk (if getHours clk \<ge> end_hour campaign then 1 else 0)
                            (start_hour campaign)) clk s, None)
                 else
                   (case sendNextMessageFromAccount clk e cid aid r
                           (resetDailyCountersIfNeeded clk cid s) of
                      (s2, Claimed contact) \<Rightarrow>
                        (s2\<lparr>awaiting := awaiting s2 @
                              [\<lparr>f_campaign = cid, f_account = aid, f_state = r,
                                f_contact = contact\<rparr>]\<rparr>, None)
                    | (s2, Stopping) \<Rightarrow> (s2, Some (CompletionRest r))
                    | (s2, Returned) \<Rightarrow> (s2, Some (CycleTail r)))))"

text \<open>The microtask belongs to a cycle that is ending the campaign.\<close>

definition endsCampaign :: "microtask option \<Rightarrow> bool" where
  "endsCampaign m = (case m of Some (CompletionRest r) \<Rightarrow> True | _ \<Rightarrow> False)"

definition cycleResume ::
  "clock \<Rightarrow> env \<Rightarrow> string \<Rightarrow> string \<Rightarrow> microtask option \<Rightarrow> sched \<Rightarrow> sched" where
  "cycleResume clk e cid aid m s =
     (case m of
        None \<Rightarrow> s
      | Some (CycleTail r) \<Rightarrow> armWake r cid aid (randomDelay e aid * 1000) clk s
      | Some (CompletionRest r) \<Rightarrow>
          armWake r cid aid (randomDelay e aid * 1000) clk (completeCampaign clk cid s))"

text \<open>
  \<^verbatim>\<open>scheduleNextMessageForAccount\<close> as the callback of a timer, together with its
  microtask.
\<close>

definition scheduleNextMessageForAccount :: "clock \<Rightarrow> env \<Rightarrow> string \<Rightarrow> string \<Rightarrow> sched \<Rightarrow> sched" where
  "scheduleNextMessageForAccount clk e cid aid s =
     (case cycleStart clk e cid aid s of (s1, m) \<Rightarrow> cycleResume clk e cid aid m s1)"

text \<open>
  \<^verbatim>\<open>INSERT INTO stats (date, messages_sent) VALUES (?, 1)
  ON CONFLICT(date) DO UPDATE SET messages_sent = messages_sent + 1\<close>
\<close>

definition updateStats :: "clock \<Rightarrow> database \<Rightarrow> database" where
  "updateStats clk d =
     d\<lparr>stats := map_set (dateKey clk)
                   (case map_of (stats d) (dateKey clk) of None \<Rightarrow> 1 | Some n \<Rightarrow> n + 1) (stats d)\<rparr>"

text \<open>The code after the \<^verbatim>\<open>await\<close> when the send succeeded.\<close>

definition sendSucceeded :: "clock \<Rightarrow> in_flight \<Rightarrow> sched \<Rightarrow> sched" where
  "sendSucceeded clk f s =
     (let d1 = updateContact (cc_id (f_contact f))
                 (\<lambda>cc. cc\<lparr>cc_status := Sent, sent_by_account_id := Some (f_account f),
                          sent_at := Some (iso clk)\<rparr>) (db s);
          s1 = updateState (f_state f)
                 (\<lambda>st. st\<lparr>messagesSentToday :=
                             map_set (f_account f) (sentTodayOf st (f_account f) + 1)
                               (messagesSentToday st)\<rparr>) (s\<lparr>db := d1\<rparr>)
      in s1\<lparr>db := updateStats clk (db s1),
            notifications := notifications s1 @
              [CampaignProgress (f_campaign f) (cc_id (f_contact f)) Sent
                 (Some (f_account f)) None]\<rparr>)"

text \<open>The \<^verbatim>\<open>catch\<close> block: the send threw an error with the given message.\<close>

definition sendFailed :: "env \<Rightarrow> string option \<Rightarrow> in_flight \<Rightarrow> sched \<Rightarrow> sched" where
  "sendFailed e message f s =
     (if isPermanentFailure (errorMsgOf e message)
      then s\<lparr>db := updateContact (cc_id (f_contact f))
                      (\<lambda>cc. cc\<lparr>cc_status := Failed, cc_error := message\<rparr>) (db s),
             notifications := notifications s @
               [CampaignProgress (f_campaign f) (cc_id (f_contact f)) Failed None message]\<rparr>
      else s\<lparr>db := updateContact (cc_id (f_contact f)) (\<lambda>cc. cc\<lparr>cc_status := Pending\<rparr>) (db s)\<rparr>)"

text \<open>
  The transport answers the \<open>k\<close>-th suspended cycle: the rest of
  \<^verbatim>\<open>sendNextMessageFromAccount\<close>, then (in a microtask) the end of
  \<^verbatim>\<open>scheduleNextMessageForAccount\<close>, which arms the next wake.
\<close>

definition sendResolved :: "clock \<Rightarrow> env \<Rightarrow> nat \<Rightarrow> send_result \<Rightarrow> sched \<Rightarrow> sched" where
  "sendResolved clk e k res s =
     (if k < length (awaiting s)
      then
        (let f = awaiting s ! k;
             s0 = s\<lparr>awaiting := take k (awaiting s) @ drop (Suc k) (awaiting s)\<rparr>;
             s1 = (case res of SendOk \<Rightarrow> sendSucceeded clk f s0
                   | SendError message \<Rightarrow> sendFailed e message f s0)
         in armWake (f_state f) (f_campaign f) (f_account f)
              (randomDelay e (f_account f) * 1000) clk s1)
      else s)"

text \<open>An armed timer that is due fires once and runs the cycle of its account.\<close>

definition timerFires :: "clock \<Rightarrow> env \<Rightarrow> nat \<Rightarrow> sched \<Rightarrow> sched" where
  "timerFires clk e h s =
     (case find (\<lambda>t. t_handle t = h) (timers s) of
        None \<Rightarrow> s
      | Some t \<Rightarrow>
          if t_due t \<le> now_ms clk
          then scheduleNextMessageForAccount clk e (t_campaign t) (t_account t)
                 (s\<lparr>timers := filter (\<lambda>t. t_handle t \<noteq> h) (timers s)\<rparr>)
          else s)"

text \<open>The callback of \<^verbatim>\<open>startDailyReset\<close>, run at local midnight.\<close>

definition dailyReset :: "clock \<Rightarrow> sched \<Rightarrow> sched" where
  "dailyReset clk s =
     foldl (\<lambda>s p. updateState (snd p)
                    (\<lambda>st. st\<lparr>messagesSentToday := [], lastResetDate := dateKey clk\<rparr>) s)
       s (activeCampaigns s)"

text \<open>
  The loop \<^verbatim>\<open>for (const accountId of accountIds)\<close> of \<^verbatim>\<open>startCampaign\<close> calls
  \<^verbatim>\<open>scheduleNextMessageForAccount\<close> without \<^verbatim>\<open>await\<close>: the cycles of all accounts
  start one after the other, and the microtasks they leave behind run after the loop, in
  the same order.
\<close>

fun startCycles ::
  "clock \<Rightarrow> env \<Rightarrow> string \<Rightarrow> string list \<Rightarrow> sched \<Rightarrow> sched \<times> (string \<times> microtask option) list" where
  "startCycles clk e cid [] s = (s, [])"
| "startCycles clk e cid (aid # aids) s =
     (case cycleStart clk e cid aid s of
        (s1, m) \<Rightarrow> (case startCycles clk e cid aids s1 of (s2, ms) \<Rightarrow> (s2, (aid, m) # ms)))"

fun resumeCycles :: "clock \<Rightarrow> env \<Rightarrow> string \<Rightarrow> (string \<times> microtask option) list \<Rightarrow> sched \<Rightarrow> sched" where
  "resumeCycles clk e cid [] s = s"
| "resumeCycles clk e cid (p # ms) s =
     resumeCycles clk e cid ms (cycleResume clk e cid (fst p) (snd p) s)"

definition startCampaign :: "clock \<Rightarrow> env \<Rightarrow> string \<Rightarrow> sched \<Rightarrow> sched" where
  "startCampaign clk e cid s =
     (if map_of (activeCampaigns s) cid \<noteq> None then s
      else
        (case getCampaign (db s) cid of
           None \<Rightarrow> s
         | Some campaign \<Rightarrow>
             (let s1 = s\<lparr>db := updateCampaign cid
                              (\<lambda>c. c\<lparr>c_status := Running,
                                     started_at := (case started_at c of
                                                      None \<Rightarrow> Some (iso clk) | Some t \<Rightarrow> Some t)\<rparr>)
                              (db s)\<rparr>;
                  accountIds = map snd (filter (\<lambda>p. fst p = cid) (campaign_accounts (db s1)))
              in if accountIds = [] then s1
                 else
                   (case startCycles clk e cid accountIds
                           (s1\<lparr>activeCampaigns := map_set cid (newRef (objects s1)) (activeCampaigns s1),
                               objects := map_set (newRef (objects s1))
                                            \<lparr>isRunning = True, accountTimeouts = [],
                                             messagesSentToday = [], lastResetDate = dateKey clk\<rparr>
                                            (objects s1)\<rparr>) of
                      (s2, ms) \<Rightarrow> resumeCycles clk e cid ms s2))))"

subsection \<open>Operations\<close>

text \<open>
  What can happen to the scheduler: the four public operations, a due timer, the
  transport's answer to a suspended cycle, and the midnight callback.
\<close>

datatype sched_op =
  StartCampaign string
| PauseCampaign string
| StopCampaign string
| ResetCampaign string
| TimerFires nat
| SendResolves nat send_result
| MidnightReset

definition step :: "clock \<Rightarrow> env \<Rightarrow> sched_op \<Rightarrow> sched \<Rightarrow> sched" where
  "step clk e op s =
     (case op of
        StartCampaign cid \<Rightarrow> startCampaign clk e cid s
      | PauseCampaign cid \<Rightarrow> pauseCampaign cid s
      | StopCampaign cid \<Rightarrow> stopCampaign clk cid s
      | ResetCampaign cid \<Rightarrow> resetCampaign clk cid s
      | TimerFires h \<Rightarrow> timerFires clk e h s
      | SendResolves k res \<Rightarrow> sendResolved clk e k res s
      | MidnightReset \<Rightarrow> dailyReset clk s)"

text \<open>The persisted status of a campaign: \<^verbatim>\<open>SELECT status FROM campaigns WHERE id = ?\<close>.\<close>

definition statusOf :: "sched \<Rightarrow> string \<Rightarrow> campaign_status option" where
  "statusOf s cid = map_option c_status (getCampaign (db s) cid)"

text \<open>The statuses that an operation can write to the row of campaign \<open>cid\<close>.\<close>

definition writes :: "sched_op \<Rightarrow> string \<Rightarrow> campaign_status list" where
  "writes op cid =
     (case op of
        StartCampaign c \<Rightarrow> (if c = cid then [Running, Completed] else [])
      | PauseCampaign c \<Rightarrow> (if c = cid then [Paused] else [])
      | StopCampaign c \<Rightarrow> (if c = cid then [Stopped] else [])
      | ResetCampaign c \<Rightarrow> (if c = cid then [Draft] else [])
      | TimerFires h \<Rightarrow> [Completed]
      | SendResolves k res \<Rightarrow> []
      | MidnightReset \<Rightarrow> [])"

text \<open>A run of the scheduler: operations, each with the clock and the outside world of its moment.\<close>

definition run :: "(clock \<times> env \<times> sched_op) list \<Rightarrow> sched \<Rightarrow> sched" where
  "run evs s = foldl (\<lambda>s ev. step (fst ev) (fst (snd ev)) (snd (snd ev)) s) s evs"

text \<open>
  Campaign \<open>cid\<close> has its \<^verbatim>\<open>CampaignState\<close> in the registry, at the reference
  \<open>r\<close>, with \<^verbatim>\<open>isRunning\<close> false.
\<close>

definition haltedAt :: "string \<Rightarrow> nat \<Rightarrow> sched \<Rightarrow> bool" where
  "haltedAt cid r s =
     (map_of (activeCampaigns s) cid = Some r
      \<and> (case map_of (objects s) r of None \<Rightarrow> False | Some st \<Rightarrow> \<not> isRunning st))"

text \<open>
  Every row of the given rows with id \<open>i\<close> is failed with the error text \<open>msg\<close>
  and belongs to one of the campaigns \<open>cs\<close>; and, for a scheduler state, no suspended
  cycle holds the contact \<open>i\<close> besides.
\<close>

definition rowsFailed :: "string \<Rightarrow> string option \<Rightarrow> string list \<Rightarrow> campaign_contact list \<Rightarrow> bool" where
  "rowsFailed i msg cs rows =
     (\<forall>x\<in>set rows. cc_id x = i \<longrightarrow>
        cc_status x = Failed \<and> cc_error x = msg \<and> cc_campaign_id x \<in> set cs)"

definition failedAt :: "string \<Rightarrow> string option \<Rightarrow> string list \<Rightarrow> sched \<Rightarrow> bool" where
  "failedAt i msg cs s =
     (rowsFailed i msg cs (campaign_contacts (db s))
      \<and> (\<forall>f\<in>set (awaiting s). cc_id (f_contact f) \<noteq> i))"

subsection \<open>Reading a state\<close>

text \<open>Who waits for the transport with which contact, and the status of every contact.\<close>

definition holders :: "sched \<Rightarrow> (string \<times> string) list" where
  "holders s = map (\<lambda>f. (f_account f, cc_id (f_contact f))) (awaiting s)"

definition contactStatuses :: "sched \<Rightarrow> (string \<times> contact_status) list" where
  "contactStatuses s = map (\<lambda>cc. (cc_id cc, cc_status cc)) (campaign_contacts (db s))"

text \<open>The armed timers, and the counters of a \<^verbatim>\<open>CampaignState\<close> object.\<close>

definition armed :: "sched \<Rightarrow> (nat \<times> string \<times> int) list" where
  "armed s = map (\<lambda>t. (t_handle t, t_account t, t_due t)) (timers s)"

definition countersOf :: "sched \<Rightarrow> nat \<Rightarrow> (string \<times> int) list" where
  "countersOf s r = (case map_of (objects s) r of None \<Rightarrow> [] | Some st \<Rightarrow> messagesSentToday st)"

subsection \<open>Example data\<close>

text \<open>
  A campaign with two accounts and three contacts, the third of them tagged
  \<^verbatim>\<open>BlackList\<close>; ten o'clock on the first of January, and one second later. The
  error messages of the examples are texts of ASCII characters, so the runtime's
  \<^verbatim>\<open>toLowerCase\<close> is \<open>asciiToLowerCase\<close> on them.
\<close>

definition demoCampaign :: campaign where
  "demoCampaign =
     \<lparr>c_id = ''camp1'', c_name = ''Demo'', c_message = ''Hello'', c_status = Draft,
      min_delay = 30, max_delay = 60, max_messages_per_day = 2, start_hour = 9, end_hour = 18,
      started_at = None, completed_at = None,
      media_path = None, media_type = None, media_caption = None\<rparr>"

definition demoContact :: "string \<Rightarrow> string \<Rightarrow> contact_status \<Rightarrow> campaign_contact" where
  "demoContact i phone st =
     \<lparr>cc_id = i, cc_campaign_id = ''camp1'', cc_phone_number = phone, cc_status = st,
      sent_by_account_id = None, sent_at = None, cc_error = None\<rparr>"

definition demoDb :: database where
  "demoDb =
     \<lparr>campaigns = [demoCampaign],
      campaign_accounts = [(''camp1'', ''accA''), (''camp1'', ''accB'')],
      campaign_contacts =
        [demoContact ''cc1'' ''972500000001'' Pending,
         demoContact ''cc2'' ''972500000002'' Pending,
         demoContact ''cc3'' ''972500000003'' Pending],
      contacts = [\<lparr>ct_id = ''p3'', ct_phone_number = ''972500000003'', ct_name = Some ''Dana''\<rparr>],
      tags = [\<lparr>tag_id = ''t1'', tag_name = ''BlackList''\<rparr>],
      contact_tags = [(''p3'', ''t1'')],
      activities = [], stats = []\<rparr>"

definition freshScheduler :: "database \<Rightarrow> sched" where
  "freshScheduler d =
     \<lparr>db = d, activeCampaigns = [], objects = [], timers = [], next_handle = 0,
      awaiting = [], notifications = []\<rparr>"

definition tenOclock :: clock where
  "tenOclock = \<lparr>now_ms = 1767261600000, iso = ''2026-01-01T10:00:00.000Z'',
                 local_ms_of_day = 36000000\<rparr>"

definition tenOclockOne :: clock where
  "tenOclockOne = \<lparr>now_ms = 1767261601000, iso = ''2026-01-01T10:00:01.000Z'',
                    local_ms_of_day = 36001000\<rparr>"

definition allConnected :: env where
  "allConnected =
     \<lparr>isConnected = (\<lambda>a. True), randomDelay = (\<lambda>a. 30), toLowerCase = asciiToLowerCase\<rparr>"

text \<open>The demo campaign after \<^verbatim>\<open>startCampaign\<close>: both accounts wait for the transport.\<close>

definition demoStarted :: sched where
  "demoStarted = startCampaign tenOclock allConnected ''camp1'' (freshScheduler demoDb)"

text \<open>Both sends of the started demo campaign have succeeded.\<close>

definition demoTwoSent :: sched where
  "demoTwoSent =
     sendResolved tenOclockOne allConnected 0 SendOk
       (sendResolved tenOclockOne allConnected 0 SendOk demoStarted)"

text \<open>The first send of the started demo campaign has succeeded.\<close>

definition demoOneSent :: sched where
  "demoOneSent = sendResolved tenOclockOne allConnected 0 SendOk demoStarted"

text \<open>The demo campaign with no row in \<^verbatim>\<open>campaign_accounts\<close>.\<close>

definition demoNoAccounts :: sched where
  "demoNoAccounts = freshScheduler (demoDb\<lparr>campaign_accounts := []\<rparr>)"

text \<open>
  Three accounts, the second of them not connected, on the demo campaign with one contact
  that can be claimed, \<open>cc1\<close>; and the demo campaign while its first account is not
  connected.
\<close>

definition tenThirtyOne :: clock where
  "tenThirtyOne = \<lparr>now_ms = 1767261631000, iso = ''2026-01-01T10:00:31.000Z'',
                    local_ms_of_day = 36031000\<rparr>"

definition accBOffline :: env where
  "accBOffline = allConnected\<lparr>isConnected := (\<lambda>a. a \<noteq> ''accB'')\<rparr>"

definition accAOffline :: env where
  "accAOffline = allConnected\<lparr>isConnected := (\<lambda>a. a \<noteq> ''accA'')\<rparr>"

definition raceDb :: database where
  "raceDb = demoDb
     \<lparr>campaign_accounts := [(''camp1'', ''accA''), (''camp1'', ''accB''), (''camp1'', ''accC'')],
      campaign_contacts := [demoContact ''cc1'' ''972500000001'' Pending,
                            demoContact ''cc3'' ''972500000003'' Pending]\<rparr>"

definition raceStarted :: sched where
  "raceStarted = startCampaign tenOclock accBOffline ''camp1'' (freshScheduler raceDb)"

text \<open>
  What follows the pause of the demo campaign after its first send: the send of the
  second account succeeds at 10:00:31, and the timer armed then fires at 10:01:01.
\<close>

definition tenOhOneOhOne :: clock where
  "tenOhOneOhOne = \<lparr>now_ms = 1767261661000, iso = ''2026-01-01T10:01:01.000Z'',
                     local_ms_of_day = 36061000\<rparr>"

definition afterPause :: "(clock \<times> env \<times> sched_op) list" where
  "afterPause =
     [(tenThirtyOne, allConnected, SendResolves 0 SendOk),
      (tenOhOneOhOne, allConnected, TimerFires 1)]"

text \<open>
  One account with a daily limit of one message and three contacts, local time equal to
  UTC: the limit is reached at 17:59:00; the timer armed then fires at 17:59:30 (a cycle at
  the limit), the timer armed by that cycle fires at 18:00:00 (outside working hours);
  the counters are reset at midnight; both timers armed for the next morning fire at
  09:00:00, and both sends succeed at 09:00:02. Every timer fires when it is due.
\<close>

definition utcClock :: "int \<Rightarrow> int \<Rightarrow> string \<Rightarrow> clock" where
  "utcClock midnight ms text = \<lparr>now_ms = midnight + ms, iso = text, local_ms_of_day = ms\<rparr>"

definition capDb :: database where
  "capDb =
     \<lparr>campaigns = [demoCampaign\<lparr>max_messages_per_day := 1\<rparr>],
      campaign_accounts = [(''camp1'', ''accA'')],
      campaign_contacts =
        [demoContact ''cc1'' ''972500000001'' Pending,
         demoContact ''cc2'' ''972500000002'' Pending,
         demoContact ''cc3'' ''972500000003'' Pending],
      contacts = [], tags = [], contact_tags = [], activities = [], stats = []\<rparr>"

definition capLimitReached :: sched where
  "capLimitReached =
     sendResolved (utcClock 1767225600000 64740000 ''2026-01-01T17:59:00.000Z'') allConnected 0 SendOk
       (startCampaign (utcClock 1767225600000 64739000 ''2026-01-01T17:58:59.000Z'') allConnected
          ''camp1'' (freshScheduler capDb))"

definition capAfterLimitCycle :: sched where
  "capAfterLimitCycle =
     timerFires (utcClock 1767225600000 64770000 ''2026-01-01T17:59:30.000Z'') allConnected 0
       capLimitReached"

definition capEvening :: sched where
  "capEvening =
     timerFires (utcClock 1767225600000 64800000 ''2026-01-01T18:00:00.000Z'') allConnected 2
       capAfterLimitCycle"

definition capMidnight :: sched where
  "capMidnight = dailyReset (utcClock 1767312000000 0 ''2026-01-02T00:00:00.000Z'') capEvening"

definition capNextMorning :: sched where
  "capNextMorning =
     timerFires (utcClock 1767312000000 32400000 ''2026-01-02T09:00:00.000Z'') allConnected 3
       (timerFires (utcClock 1767312000000 32400000 ''2026-01-02T09:00:00.000Z'') allConnected 1
          capMidnight)"

definition capBothSent :: sched where
  "capBothSent =
     sendResolved (utcClock 1767312000000 32402000 ''2026-01-02T09:00:02.000Z'') allConnected 0 SendOk
       (sendResolved (utcClock 1767312000000 32402000 ''2026-01-02T09:00:02.000Z'') allConnected 0
          SendOk capNextMorning)"

text \<open>
  One account and one contact: the contact is sent, then the campaign is stopped.
\<close>

definition soloDb :: database where
  "soloDb =
     \<lparr>campaigns = [demoCampaign], campaign_accounts = [(''camp1'', ''accA'')],
      campaign_contacts = [demoContact ''cc1'' ''972500000001'' Pending],
      contacts = [], tags = [], contact_tags = [], activities = [], stats = []\<rparr>"

definition soloSent :: sched where
  "soloSent =
     step tenOclockOne allConnected (SendResolves 0 SendOk)
       (step tenOclock allConnected (StartCampaign ''camp1'') (freshScheduler soloDb))"

definition soloStopped :: sched where
  "soloStopped = step tenOclockOne allConnected (StopCampaign ''camp1'') soloSent"

text \<open>
  The demo campaign as an earlier process left it, running, in a scheduler that has not
  started it: the process was restarted outside working hours, where
  \<^verbatim>\<open>resumeRunningCampaigns\<close> defers its call of \<^verbatim>\<open>startCampaign\<close> to the
  start hour, nine o'clock.
\<close>

definition restartedScheduler :: sched where
  "restartedScheduler =
     freshScheduler
       (demoDb\<lparr>campaigns := [demoCampaign\<lparr>c_status := Running,
                                          started_at := Some ''2025-12-31T10:00:00.000Z''\<rparr>]\<rparr>)"

definition nineOclock :: clock where
  "nineOclock = \<lparr>now_ms = 1767258000000, iso = ''2026-01-01T09:00:00.000Z'',
                  local_ms_of_day = 32400000\<rparr>"







text \<open>
  The store with two campaigns: of the first, one contact is sent, one failed and one
  claimed; the second has a contact that is sent.
\<close>

definition resetExample :: sched where
  "resetExample =
     freshScheduler
       \<lparr>campaigns =
          [demoCampaign\<lparr>c_status := Stopped, started_at := Some ''2026-01-01T09:00:00.000Z'',
                        completed_at := Some ''2026-01-01T09:30:00.000Z''\<rparr>,
           demoCampaign\<lparr>c_id := ''camp2'', c_status := Running,
                        started_at := Some ''2026-01-01T09:10:00.000Z''\<rparr>],
        campaign_accounts = [(''camp1'', ''accA''), (''camp2'', ''accB'')],
        campaign_contacts =
          [(demoContact ''cc1'' ''972500000001'' Sent)
             \<lparr>sent_by_account_id := Some ''accA'', sent_at := Some ''2026-01-01T09:00:05.000Z''\<rparr>,
           (demoContact ''cc2'' ''972500000002'' Failed)
             \<lparr>cc_error := Some ''Number is not on WhatsApp''\<rparr>,
           demoContact ''cc3'' ''972500000003'' Sending,
           (demoContact ''cc9'' ''972500000009'' Sent)
             \<lparr>cc_campaign_id := ''camp2'', sent_by_account_id := Some ''accB'',
              sent_at := Some ''2026-01-01T09:10:05.000Z''\<rparr>],
        contacts = [], tags = [], contact_tags = [], activities = [], stats = []\<rparr>"

section \<open>Properties\<close>

subsection \<open>What the primitives leave alone\<close>

lemma db_updateState [simp]: "db (updateState r f s) = db s"
  by (simp add: updateState_def split: option.splits)

lemma db_setTimeout_wake [simp]: "db (setTimeout_wake cid aid delay clk s) = db s"
  by (simp add: setTimeout_wake_def)

lemma db_armWake [simp]: "db (armWake r cid aid delay clk s) = db s"
  by (simp add: armWake_def)

lemma db_clearTimeouts [simp]: "db (clearTimeouts hs s) = db s"
  by (simp add: clearTimeouts_def)

lemma db_haltWorkers [simp]: "db (haltWorkers cid s) = db s"
  by (simp add: haltWorkers_def split: option.splits prod.splits)

lemma activeCampaigns_updateState [simp]:
  "activeCampaigns (updateState r f s) = activeCampaigns s"
  by (simp add: updateState_def split: option.splits)

lemma activeCampaigns_clearTimeouts [simp]:
  "activeCampaigns (clearTimeouts hs s) = activeCampaigns s"
  by (simp add: clearTimeouts_def)

lemma activeCampaigns_haltWorkers [simp]:
  "activeCampaigns (haltWorkers cid s) = activeCampaigns s"
  by (simp add: haltWorkers_def split: option.splits prod.splits)

lemma activeCampaigns_pauseCampaign [simp]:
  "activeCampaigns (pauseCampaign cid s) = activeCampaigns s"
  by (simp add: pauseCampaign_def Let_def)

lemma stateOf_db_update [simp]: "stateOf (s\<lparr>db := d\<rparr>) cid = stateOf s cid"
  by (simp add: stateOf_def split: option.splits)

lemma map_of_map_delete [simp]: "map_of (map_delete k ps) k = None"
  by (induction ps) (auto simp: map_delete_def)

lemma in_set_map_if:
  "y \<in> set (map (\<lambda>x. if P x then f x else x) xs) \<longleftrightarrow>
   (\<exists>x\<in>set xs. y = (if P x then f x else x))"
  unfolding set_map image_iff ..

lemma campaigns_updateCampaign:
  "campaigns (updateCampaign cid f d) = map (\<lambda>c. if c_id c = cid then f c else c) (campaigns d)"
  by (simp add: updateCampaign_def)

lemma in_campaigns_updateCampaign:
  "c \<in> set (campaigns (updateCampaign cid f d)) \<longleftrightarrow>
   (\<exists>x\<in>set (campaigns d). c = (if c_id x = cid then f x else x))"
  unfolding campaigns_updateCampaign in_set_map_if ..

lemma campaign_contacts_updateCampaign [simp]:
  "campaign_contacts (updateCampaign cid f d) = campaign_contacts d"
  by (simp add: updateCampaign_def)

lemma campaigns_resetContacts [simp]: "campaigns (resetContacts cid d) = campaigns d"
  by (simp add: resetContacts_def)

lemma db_pauseCampaign:
  "db (pauseCampaign cid s) = updateCampaign cid (\<lambda>c. c\<lparr>c_status := Paused\<rparr>) (db s)"
  by (simp add: pauseCampaign_def Let_def)

lemma db_stopCampaign:
  "db (stopCampaign clk cid s) =
     updateCampaign cid (\<lambda>c. c\<lparr>c_status := Stopped, completed_at := Some (iso clk)\<rparr>) (db s)"
  by (simp add: stopCampaign_def Let_def split: option.splits)

lemma db_resetCampaign:
  "db (resetCampaign clk cid s) =
     updateCampaign cid (\<lambda>c. c\<lparr>c_status := Draft, started_at := None, completed_at := None\<rparr>)
       (resetContacts cid
          (updateCampaign cid (\<lambda>c. c\<lparr>c_status := Stopped, completed_at := Some (iso clk)\<rparr>) (db s)))"
  by (simp add: resetCampaign_def Let_def db_stopCampaign)

subsection \<open>Working hours\<close>

text \<open>
  C4. For every hour from 0 to 23, the window from 9 to 18 holds exactly the hours 9 to 17,
  and the window from 0 to 24 holds every hour. The test that sends a worker to sleep is
  the negation of the within-window test.
\<close>

theorem working_hours_gating:
  assumes "0 \<le> hour" and "hour \<le> 23"
  shows "(isWithinWindow hour 9 18 \<longleftrightarrow> 9 \<le> hour \<and> hour \<le> 17)
       \<and> (outsideWorkingHours hour 9 18 \<longleftrightarrow> hour \<le> 8 \<or> 18 \<le> hour)
       \<and> isWithinWindow hour 0 24 \<and> \<not> outsideWorkingHours hour 0 24
       \<and> (outsideWorkingHours hour startHour endHour \<longleftrightarrow> \<not> isWithinWindow hour startHour endHour)"
  using assms by (auto simp: isWithinWindow_def outsideWorkingHours_def)

theorem working_hours_gating_witness:
  "isWithinWindow 9 9 18 \<and> isWithinWindow 17 9 18 \<and> outsideWorkingHours 18 9 18
   \<and> outsideWorkingHours 8 9 18 \<and> isWithinWindow 23 0 24 \<and> isWithinWindow 0 0 24"
  using working_hours_gating [of 9 0 0] working_hours_gating [of 17 0 0]
    working_hours_gating [of 18 0 0] working_hours_gating [of 8 0 0]
    working_hours_gating [of 23 0 0] working_hours_gating [of 0 0 0]
  by simp

subsection \<open>Reset\<close>

lemma stateOf_stopCampaign [simp]: "stateOf (stopCampaign clk cid s) cid = None"
  by (auto simp: stopCampaign_def stateOf_def Let_def split: option.splits)

lemma stopCampaign_inactive:
  "stateOf s cid = None \<Longrightarrow>
   stopCampaign clk cid s =
     s\<lparr>db := updateCampaign cid (\<lambda>c. c\<lparr>c_status := Stopped, completed_at := Some (iso clk)\<rparr>) (db s)\<rparr>"
  by (simp add: stopCampaign_def)

lemma stateOf_resetCampaign [simp]: "stateOf (resetCampaign clk cid s) cid = None"
  by (simp add: resetCampaign_def Let_def)

lemma reset_db_absorbs:
  "updateCampaign cid (\<lambda>c. c\<lparr>c_status := Draft, started_at := None, completed_at := None\<rparr>)
     (resetContacts cid
        (updateCampaign cid (\<lambda>c. c\<lparr>c_status := Stopped, completed_at := Some t\<rparr>)
           (updateCampaign cid (\<lambda>c. c\<lparr>c_status := Draft, started_at := None, completed_at := None\<rparr>)
              (resetContacts cid d)))) =
   updateCampaign cid (\<lambda>c. c\<lparr>c_status := Draft, started_at := None, completed_at := None\<rparr>)
     (resetContacts cid d)"
  by (simp add: updateCampaign_def resetContacts_def o_def)

lemma reset_twice:
  "resetCampaign clk2 cid (resetCampaign clk1 cid s) = resetCampaign clk1 cid s"
proof -
  have "stateOf (resetCampaign clk1 cid s) cid = None" by simp
  then have "stopCampaign clk2 cid (resetCampaign clk1 cid s) =
     (resetCampaign clk1 cid s)\<lparr>db := updateCampaign cid
        (\<lambda>c. c\<lparr>c_status := Stopped, completed_at := Some (iso clk2)\<rparr>) (db (resetCampaign clk1 cid s))\<rparr>"
    by (rule stopCampaign_inactive)
  then show ?thesis
    by (simp add: resetCampaign_def [of clk2] Let_def)
       (simp add: resetCampaign_def [of clk1] Let_def reset_db_absorbs)
qed

lemma contacts_resetCampaign:
  "campaign_contacts (db (resetCampaign clk cid s)) =
     map (\<lambda>cc. if cc_campaign_id cc = cid
               then cc\<lparr>cc_status := Pending, sent_by_account_id := None,
                       sent_at := None, cc_error := None\<rparr>
               else cc) (campaign_contacts (db s))"
  by (simp add: db_resetCampaign resetContacts_def updateCampaign_def)

lemma campaigns_resetCampaign:
  "campaigns (db (resetCampaign clk cid s)) =
     map (\<lambda>c. if c_id c = cid
              then c\<lparr>c_status := Draft, started_at := None, completed_at := None\<rparr>
              else c) (campaigns (db s))"
  by (simp add: db_resetCampaign resetContacts_def updateCampaign_def o_def)

lemma filter_others_map_if:
  assumes "\<And>x. Q (f x) = Q x"
  shows "filter (\<lambda>x. \<not> Q x) (map (\<lambda>x. if Q x then f x else x) xs) = filter (\<lambda>x. \<not> Q x) xs"
  by (induction xs) (simp_all add: assms)

lemma map_columns_map_if:
  assumes "\<And>x. h (f x) = h x"
  shows "map h (map (\<lambda>x. if Q x then f x else x) xs) = map h xs"
  by (induction xs) (simp_all add: assms)

lemma reset_contacts_kept:
  "map (\<lambda>cc. (cc_id cc, cc_campaign_id cc, cc_phone_number cc))
       (campaign_contacts (db (resetCampaign clk cid s))) =
   map (\<lambda>cc. (cc_id cc, cc_campaign_id cc, cc_phone_number cc)) (campaign_contacts (db s))"
  unfolding contacts_resetCampaign by (rule map_columns_map_if) simp

lemma reset_contacts_state:
  assumes "cc \<in> set (campaign_contacts (db (resetCampaign clk cid s)))" and "cc_campaign_id cc = cid"
  shows "cc_status cc = Pending \<and> sent_by_account_id cc = None \<and> sent_at cc = None \<and> cc_error cc = None"
proof -
  from assms(1) obtain x where x: "x \<in> set (campaign_contacts (db s))"
    and cc: "cc = (if cc_campaign_id x = cid
                   then x\<lparr>cc_status := Pending, sent_by_account_id := None,
                           sent_at := None, cc_error := None\<rparr> else x)"
    unfolding contacts_resetCampaign in_set_map_if by blast
  show ?thesis
  proof (cases "cc_campaign_id x = cid")
    case True
    with cc show ?thesis by simp
  next
    case False
    with cc assms(2) show ?thesis by simp
  qed
qed

lemma reset_other_contacts:
  "filter (\<lambda>cc. cc_campaign_id cc \<noteq> cid) (campaign_contacts (db (resetCampaign clk cid s))) =
   filter (\<lambda>cc. cc_campaign_id cc \<noteq> cid) (campaign_contacts (db s))"
  unfolding contacts_resetCampaign
  by (rule filter_others_map_if [where Q = "\<lambda>cc. cc_campaign_id cc = cid"]) simp

lemma reset_campaigns_kept:
  "map (\<lambda>c. c\<lparr>c_status := Draft, started_at := None, completed_at := None\<rparr>)
       (campaigns (db (resetCampaign clk cid s))) =
   map (\<lambda>c. c\<lparr>c_status := Draft, started_at := None, completed_at := None\<rparr>) (campaigns (db s))"
  unfolding campaigns_resetCampaign by (rule map_columns_map_if) simp

lemma reset_campaign_state:
  assumes "c \<in> set (campaigns (db (resetCampaign clk cid s)))" and "c_id c = cid"
  shows "c_status c = Draft \<and> started_at c = None \<and> completed_at c = None"
proof -
  let ?fD = "\<lambda>c. c\<lparr>c_status := Draft, started_at := None, completed_at := None\<rparr>"
  from assms(1) obtain x where c: "c = (if c_id x = cid then ?fD x else x)"
    unfolding campaigns_resetCampaign in_set_map_if by blast
  show ?thesis
  proof (cases "c_id x = cid")
    case True
    with c show ?thesis by simp
  next
    case False
    with c assms(2) show ?thesis by simp
  qed
qed

lemma reset_other_campaigns:
  "filter (\<lambda>c. c_id c \<noteq> cid) (campaigns (db (resetCampaign clk cid s))) =
   filter (\<lambda>c. c_id c \<noteq> cid) (campaigns (db s))"
  unfolding campaigns_resetCampaign
  by (rule filter_others_map_if [where Q = "\<lambda>c. c_id c = cid"]) simp

text \<open>
  C7. \<^verbatim>\<open>resetCampaign\<close> keeps every row of \<^verbatim>\<open>campaign_contacts\<close>, in place and
  with its id, campaign and phone number; after it every contact of the campaign is
  pending with \<^verbatim>\<open>sent_by_account_id\<close>, \<^verbatim>\<open>sent_at\<close> and \<^verbatim>\<open>error\<close> null, and
  the contacts of other campaigns are as they were. It keeps every row of
  \<^verbatim>\<open>campaigns\<close> with all its columns other than \<^verbatim>\<open>status\<close>,
  \<^verbatim>\<open>started_at\<close> and \<^verbatim>\<open>completed_at\<close>; the campaign is a draft with
  \<^verbatim>\<open>started_at\<close> and \<^verbatim>\<open>completed_at\<close> null, and the other campaigns are as they
  were. A second reset, at any later time, returns the very same scheduler state (the
  model has no failing branch, so the second call cannot raise).
\<close>

theorem reset_idempotent:
  "resetCampaign clk2 cid (resetCampaign clk1 cid s) = resetCampaign clk1 cid s
   \<and> map (\<lambda>cc. (cc_id cc, cc_campaign_id cc, cc_phone_number cc))
          (campaign_contacts (db (resetCampaign clk1 cid s))) =
     map (\<lambda>cc. (cc_id cc, cc_campaign_id cc, cc_phone_number cc)) (campaign_contacts (db s))
   \<and> (\<forall>cc\<in>set (campaign_contacts (db (resetCampaign clk1 cid s))).
         cc_campaign_id cc = cid \<longrightarrow>
         cc_status cc = Pending \<and> sent_by_account_id cc = None
         \<and> sent_at cc = None \<and> cc_error cc = None)
   \<and> filter (\<lambda>cc. cc_campaign_id cc \<noteq> cid) (campaign_contacts (db (resetCampaign clk1 cid s))) =
     filter (\<lambda>cc. cc_campaign_id cc \<noteq> cid) (campaign_contacts (db s))
   \<and> map (\<lambda>c. c\<lparr>c_status := Draft, started_at := None, completed_at := None\<rparr>)
          (campaigns (db (resetCampaign clk1 cid s))) =
     map (\<lambda>c. c\<lparr>c_status := Draft, started_at := None, completed_at := None\<rparr>) (campaigns (db s))
   \<and> (\<forall>c\<in>set (campaigns (db (resetCampaign clk1 cid s))).
         c_id c = cid \<longrightarrow>
         c_status c = Draft \<and> started_at c = None \<and> completed_at c = None)
   \<and> filter (\<lambda>c. c_id c \<noteq> cid) (campaigns (db (resetCampaign clk1 cid s))) =
     filter (\<lambda>c. c_id c \<noteq> cid) (campaigns (db s))"
proof -
  have a: "\<forall>cc\<in>set (campaign_contacts (db (resetCampaign clk1 cid s))).
         cc_campaign_id cc = cid \<longrightarrow>
         cc_status cc = Pending \<and> sent_by_account_id cc = None
         \<and> sent_at cc = None \<and> cc_error cc = None"
    using reset_contacts_state by blast
  have b: "\<forall>c\<in>set (campaigns (db (resetCampaign clk1 cid s))).
         c_id c = cid \<longrightarrow>
         c_status c = Draft \<and> started_at c = None \<and> completed_at c = None"
    using reset_campaign_state by blast
  show ?thesis
    by (intro conjI reset_twice reset_contacts_kept a reset_other_contacts
          reset_campaigns_kept b reset_other_campaigns)
qed

theorem reset_idempotent_witness:
  "contactStatuses resetExample =
     [(''cc1'', Sent), (''cc2'', Failed), (''cc3'', Sending), (''cc9'', Sent)]
   \<and> resetCampaign tenOclockOne ''camp1'' (resetCampaign tenOclock ''camp1'' resetExample) =
       resetCampaign tenOclock ''camp1'' resetExample
   \<and> map (\<lambda>cc. (cc_id cc, cc_campaign_id cc, cc_phone_number cc))
          (campaign_contacts (db (resetCampaign tenOclock ''camp1'' resetExample))) =
       [(''cc1'', ''camp1'', ''972500000001''), (''cc2'', ''camp1'', ''972500000002''),
        (''cc3'', ''camp1'', ''972500000003''), (''cc9'', ''camp2'', ''972500000009'')]
   \<and> cc_campaign_id (campaign_contacts (db (resetCampaign tenOclock ''camp1'' resetExample)) ! 1) = ''camp1''
   \<and> cc_status (campaign_contacts (db (resetCampaign tenOclock ''camp1'' resetExample)) ! 1) = Pending
   \<and> cc_error (campaign_contacts (db (resetCampaign tenOclock ''camp1'' resetExample)) ! 1) = None
   \<and> filter (\<lambda>cc. cc_campaign_id cc \<noteq> ''camp1'')
          (campaign_contacts (db (resetCampaign tenOclock ''camp1'' resetExample))) =
       [campaign_contacts (db resetExample) ! 3]
   \<and> c_status (campaigns (db (resetCampaign tenOclock ''camp1'' resetExample)) ! 0) = Draft
   \<and> started_at (campaigns (db (resetCampaign tenOclock ''camp1'' resetExample)) ! 0) = None
   \<and> filter (\<lambda>c. c_id c \<noteq> ''camp1'') (campaigns (db (resetCampaign tenOclock ''camp1'' resetExample))) =
       [campaigns (db resetExample) ! 1]"
proof -
  let ?R = "resetCampaign tenOclock ''camp1'' resetExample"
  note th = reset_idempotent [of tenOclockOne "''camp1''" tenOclock resetExample]
  have a: "contactStatuses resetExample =
     [(''cc1'', Sent), (''cc2'', Failed), (''cc3'', Sending), (''cc9'', Sent)]" by code_simp
  have k: "map (\<lambda>cc. (cc_id cc, cc_campaign_id cc, cc_phone_number cc)) (campaign_contacts (db resetExample)) =
       [(''cc1'', ''camp1'', ''972500000001''), (''cc2'', ''camp1'', ''972500000002''),
        (''cc3'', ''camp1'', ''972500000003''), (''cc9'', ''camp2'', ''972500000009'')]" by code_simp
  have o: "filter (\<lambda>cc. cc_campaign_id cc \<noteq> ''camp1'') (campaign_contacts (db resetExample)) =
       [campaign_contacts (db resetExample) ! 3]" by code_simp
  have oc: "filter (\<lambda>c. c_id c \<noteq> ''camp1'') (campaigns (db resetExample)) =
       [campaigns (db resetExample) ! 1]" by code_simp
  have m1: "campaign_contacts (db ?R) ! 1 \<in> set (campaign_contacts (db ?R))" by code_simp
  have i1: "cc_campaign_id (campaign_contacts (db ?R) ! 1) = ''camp1''" by code_simp
  have m2: "campaigns (db ?R) ! 0 \<in> set (campaigns (db ?R))" by code_simp
  have i2: "c_id (campaigns (db ?R) ! 0) = ''camp1''" by code_simp
  note twice = th [THEN conjunct1]
  note kept = th [THEN conjunct2, THEN conjunct1, THEN trans, OF k]
  note row = th [THEN conjunct2, THEN conjunct2, THEN conjunct1, THEN bspec, OF m1, THEN mp, OF i1]
  note others = th [THEN conjunct2, THEN conjunct2, THEN conjunct2, THEN conjunct1, THEN trans, OF o]
  note camp = th [THEN conjunct2, THEN conjunct2, THEN conjunct2, THEN conjunct2, THEN conjunct2,
                  THEN conjunct1, THEN bspec, OF m2, THEN mp, OF i2]
  note othersc = th [THEN conjunct2, THEN conjunct2, THEN conjunct2, THEN conjunct2, THEN conjunct2,
                  THEN conjunct2, THEN trans, OF oc]
  from row have r1: "cc_status (campaign_contacts (db ?R) ! 1) = Pending"
    and r2: "cc_error (campaign_contacts (db ?R) ! 1) = None" by blast+
  from camp have c1: "c_status (campaigns (db ?R) ! 0) = Draft"
    and c2: "started_at (campaigns (db ?R) ! 0) = None" by blast+
  show ?thesis
    by (intro conjI a twice kept i1 r1 r2 others c1 c2 othersc)
qed

subsection \<open>Blacklist\<close>



lemma campaign_contacts_logActivity [simp]:
  "campaign_contacts (logActivity ty msg rel clk d) = campaign_contacts d"
  by (simp add: logActivity_def)

lemma campaign_contacts_stopCampaign [simp]:
  "campaign_contacts (db (stopCampaign clk cid s)) = campaign_contacts (db s)"
  by (simp add: db_stopCampaign)

lemma campaign_contacts_completeCampaign [simp]:
  "campaign_contacts (db (completeCampaign clk cid s)) = campaign_contacts (db s)"
  by (simp add: completeCampaign_def Let_def)

lemma sendNext_contacts:
  "campaign_contacts (db (fst (sendNextMessageFromAccount clk e cid aid r s))) =
     (case getCampaign (db s) cid of
        None \<Rightarrow> campaign_contacts (db s)
      | Some campaign \<Rightarrow>
         (case map_of (objects s) r of
            None \<Rightarrow> campaign_contacts (db s)
          | Some st \<Rightarrow>
              if sentTodayOf st aid \<ge> max_messages_per_day campaign then campaign_contacts (db s)
              else if \<not> isConnected e aid then campaign_contacts (releaseStuck cid (db s))
              else (case selectNextPending (db s) cid of
                      Some contact \<Rightarrow>
                        campaign_contacts (updateContact (cc_id contact)
                                             (\<lambda>cc. cc\<lparr>cc_status := Sending\<rparr>) (db s))
                    | None \<Rightarrow>
                        if countBlacklistedPending (db s) cid > 0
                        then campaign_contacts (markSkipped cid (db s))
                        else campaign_contacts (db s))))"
  by (simp add: sendNextMessageFromAccount_def Let_def split: option.splits)

lemma sendNext_result:
  "snd (sendNextMessageFromAccount clk e cid aid r s) = Claimed c \<Longrightarrow>
   selectNextPending (db s) cid = Some c"
  by (simp add: sendNextMessageFromAccount_def Let_def split: option.splits if_splits)

lemma selectNextPending_Some:
  "selectNextPending d cid = Some c \<Longrightarrow> c \<in> set (campaign_contacts d) \<and> claimable d cid c"
  by (auto simp: selectNextPending_def find_Some_iff)

lemma blacklisted_not_claimable: "blacklistedPending d cid b \<Longrightarrow> \<not> claimable d cid' b"
  by (simp add: blacklistedPending_def claimable_def)

lemma same_id_same_row:
  "distinct (map cc_id xs) \<Longrightarrow> a \<in> set xs \<Longrightarrow> b \<in> set xs \<Longrightarrow> cc_id a = cc_id b \<Longrightarrow> a = b"
  by (auto simp: distinct_map dest: inj_onD)

lemma row_by_id:
  assumes "distinct (map cc_id xs)" and "b \<in> set xs" and "\<And>y. cc_id (g y) = cc_id y"
    and "x \<in> set (map g xs)" and "cc_id x = cc_id b"
  shows "x = g b"
proof -
  from assms(4) obtain y where y: "y \<in> set xs" "x = g y" by auto
  with assms(3,5) have "cc_id y = cc_id b" by simp
  with assms(1,2) y(1) have "y = b" by (meson distinct_map inj_onD)
  with y show ?thesis by simp
qed


lemma blacklisted_stays_out:
  assumes d: "distinct (map cc_id (campaign_contacts (db s)))"
    and b: "b \<in> set (campaign_contacts (db s))"
    and bl: "blacklistedPending (db s) cid b"
    and x: "x \<in> set (campaign_contacts (db (fst (sendNextMessageFromAccount clk e cid aid r s))))"
    and id: "cc_id x = cc_id b"
  shows "x = b \<or> x = b\<lparr>cc_status := Failed, cc_error := Some ''Contact in BlackList''\<rparr>"
proof -
  let ?xs = "campaign_contacts (db s)"
  have pend: "cc_status b = Pending" using bl by (simp add: blacklistedPending_def)
  have pos: "countBlacklistedPending (db s) cid > 0"
    using b bl by (auto simp: countBlacklistedPending_def filter_empty_conv)
  consider (same) "x \<in> set ?xs"
    | (rel) "x \<in> set (campaign_contacts (releaseStuck cid (db s)))"
    | (claim) c where "selectNextPending (db s) cid = Some c"
        "x \<in> set (campaign_contacts (updateContact (cc_id c) (\<lambda>cc. cc\<lparr>cc_status := Sending\<rparr>) (db s)))"
    | (skip) "x \<in> set (campaign_contacts (markSkipped cid (db s)))"
    using x pos unfolding sendNext_contacts by (auto split: option.splits if_splits)
  then show ?thesis
  proof cases
    case same
    with row_by_id [OF d b, of "\<lambda>y. y" x] id show ?thesis by simp
  next
    case rel
    have "x = (\<lambda>cc. if cc_campaign_id cc = cid \<and> cc_status cc = Sending \<and> sent_by_account_id cc = None
                     then cc\<lparr>cc_status := Pending\<rparr> else cc) b"
      by (rule row_by_id [OF d b _ _ id]) (use rel in \<open>simp_all add: releaseStuck_def\<close>)
    with pend show ?thesis by simp
  next
    case claim
    from selectNextPending_Some [OF claim(1)] have c: "c \<in> set ?xs" "claimable (db s) cid c" by simp_all
    with bl have "c \<noteq> b" using blacklisted_not_claimable by blast
    with d b c(1) have ne: "cc_id b \<noteq> cc_id c" using same_id_same_row by blast
    have "x = (\<lambda>cc. if cc_id cc = cc_id c then cc\<lparr>cc_status := Sending\<rparr> else cc) b"
      by (rule row_by_id [OF d b _ _ id]) (use claim(2) in \<open>simp_all add: updateContact_def\<close>)
    with ne show ?thesis by simp
  next
    case skip
    have "x = (\<lambda>cc. if blacklistedPending (db s) cid cc
                     then cc\<lparr>cc_status := Failed, cc_error := Some ''Contact in BlackList''\<rparr>
                     else cc) b"
      by (rule row_by_id [OF d b _ _ id]) (use skip in \<open>simp_all add: markSkipped_def\<close>)
    with bl show ?thesis by simp
  qed
qed

lemma blacklisted_failed_when_none_left:
  assumes d: "distinct (map cc_id (campaign_contacts (db s)))"
    and b: "b \<in> set (campaign_contacts (db s))"
    and bl: "blacklistedPending (db s) cid b"
    and c: "getCampaign (db s) cid = Some campaign"
    and st: "map_of (objects s) r = Some st"
    and cap: "sentTodayOf st aid < max_messages_per_day campaign"
    and conn: "isConnected e aid"
    and none: "selectNextPending (db s) cid = None"
    and x: "x \<in> set (campaign_contacts (db (fst (sendNextMessageFromAccount clk e cid aid r s))))"
    and id: "cc_id x = cc_id b"
  shows "x = b\<lparr>cc_status := Failed, cc_error := Some ''Contact in BlackList''\<rparr>"
proof -
  have pos: "countBlacklistedPending (db s) cid > 0"
    using b bl by (auto simp: countBlacklistedPending_def filter_empty_conv)
  have skip: "x \<in> set (campaign_contacts (markSkipped cid (db s)))"
    using x c st cap conn none pos unfolding sendNext_contacts by simp
  have "x = (\<lambda>cc. if blacklistedPending (db s) cid cc
                   then cc\<lparr>cc_status := Failed, cc_error := Some ''Contact in BlackList''\<rparr>
                   else cc) b"
    by (rule row_by_id [OF d b _ _ id]) (use skip in \<open>simp_all add: markSkipped_def\<close>)
  with bl show ?thesis by simp
qed


lemma sendNext_ids:
  "map cc_id (campaign_contacts (db (fst (sendNextMessageFromAccount clk e cid aid r s)))) =
   map cc_id (campaign_contacts (db s))"
  unfolding sendNext_contacts
  by (simp add: releaseStuck_def updateContact_def markSkipped_def o_def
           split: option.splits cong: map_cong)

text \<open>
  C5. A pending contact whose phone number carries the \<^verbatim>\<open>BlackList\<close> tag is never
  returned by the claim query and never marked \<^verbatim>\<open>sending\<close> by a cycle; when the
  cycle reaches the claim query (campaign found, account under its daily limit and
  connected) and no other pending contact is left, the row is marked \<^verbatim>\<open>failed\<close>
  with the error text \<^verbatim>\<open>Contact in BlackList\<close>. The ids of
  \<^verbatim>\<open>campaign_contacts\<close> are a primary key.
\<close>

theorem blacklist_exclusion:
  assumes "distinct (map cc_id (campaign_contacts (db s)))"
    and "b \<in> set (campaign_contacts (db s))"
    and "blacklistedPending (db s) cid b"
  shows "selectNextPending (db s) cid \<noteq> Some b
       \<and> snd (sendNextMessageFromAccount clk e cid aid r s) \<noteq> Claimed b
       \<and> map cc_id (campaign_contacts (db (fst (sendNextMessageFromAccount clk e cid aid r s)))) =
           map cc_id (campaign_contacts (db s))
       \<and> (\<forall>x\<in>set (campaign_contacts (db (fst (sendNextMessageFromAccount clk e cid aid r s)))).
             cc_id x = cc_id b \<longrightarrow> cc_status x \<noteq> Sending)
       \<and> (getCampaign (db s) cid = Some campaign \<and> map_of (objects s) r = Some st
            \<and> sentTodayOf st aid < max_messages_per_day campaign \<and> isConnected e aid
            \<and> selectNextPending (db s) cid = None \<longrightarrow>
            (\<forall>x\<in>set (campaign_contacts (db (fst (sendNextMessageFromAccount clk e cid aid r s)))).
               cc_id x = cc_id b \<longrightarrow>
               cc_status x = Failed \<and> cc_error x = Some ''Contact in BlackList''))"
proof -
  have sel: "selectNextPending (db s) cid \<noteq> Some b"
    using assms(3) selectNextPending_Some blacklisted_not_claimable by blast
  then have res: "snd (sendNextMessageFromAccount clk e cid aid r s) \<noteq> Claimed b"
    using sendNext_result by blast
  have pend: "cc_status b = Pending" using assms(3) by (simp add: blacklistedPending_def)
  have out: "\<forall>x\<in>set (campaign_contacts (db (fst (sendNextMessageFromAccount clk e cid aid r s)))).
               cc_id x = cc_id b \<longrightarrow> cc_status x \<noteq> Sending"
  proof (intro ballI impI)
    fix x
    assume "x \<in> set (campaign_contacts (db (fst (sendNextMessageFromAccount clk e cid aid r s))))"
      and "cc_id x = cc_id b"
    from blacklisted_stays_out [OF assms this] pend show "cc_status x \<noteq> Sending" by auto
  qed
  have fin: "getCampaign (db s) cid = Some campaign \<and> map_of (objects s) r = Some st
            \<and> sentTodayOf st aid < max_messages_per_day campaign \<and> isConnected e aid
            \<and> selectNextPending (db s) cid = None \<longrightarrow>
            (\<forall>x\<in>set (campaign_contacts (db (fst (sendNextMessageFromAccount clk e cid aid r s)))).
               cc_id x = cc_id b \<longrightarrow>
               cc_status x = Failed \<and> cc_error x = Some ''Contact in BlackList'')"
  proof (intro impI ballI, elim conjE)
    fix x
    assume h: "getCampaign (db s) cid = Some campaign" "map_of (objects s) r = Some st"
      "sentTodayOf st aid < max_messages_per_day campaign" "isConnected e aid"
      "selectNextPending (db s) cid = None"
      and x: "x \<in> set (campaign_contacts (db (fst (sendNextMessageFromAccount clk e cid aid r s))))"
      "cc_id x = cc_id b"
    from blacklisted_failed_when_none_left [OF assms h x]
    show "cc_status x = Failed \<and> cc_error x = Some ''Contact in BlackList''" by simp
  qed
  from sel res sendNext_ids out fin show ?thesis by blast
qed

theorem blacklist_exclusion_witness:
  "blacklistedPending (db demoTwoSent) ''camp1'' (campaign_contacts (db demoTwoSent) ! 2)
   \<and> selectNextPending (db demoTwoSent) ''camp1'' = None
   \<and> cc_id (campaign_contacts (db (fst (sendNextMessageFromAccount tenOclockOne allConnected
         ''camp1'' ''accA'' 0 demoTwoSent))) ! 2) = ''cc3''
   \<and> cc_status (campaign_contacts (db (fst (sendNextMessageFromAccount tenOclockOne allConnected
         ''camp1'' ''accA'' 0 demoTwoSent))) ! 2) = Failed
   \<and> cc_error (campaign_contacts (db (fst (sendNextMessageFromAccount tenOclockOne allConnected
         ''camp1'' ''accA'' 0 demoTwoSent))) ! 2) = Some ''Contact in BlackList''"
proof -
  let ?b = "campaign_contacts (db demoTwoSent) ! 2"
  let ?after = "campaign_contacts (db (fst (sendNextMessageFromAccount tenOclockOne allConnected
         ''camp1'' ''accA'' 0 demoTwoSent)))"
  let ?st = "\<lparr>isRunning = True, accountTimeouts = [(''accA'', 0), (''accB'', 1)],
              messagesSentToday = [(''accA'', 1), (''accB'', 1)], lastResetDate = ''2026-01-01''\<rparr>"
  have h1: "distinct (map cc_id (campaign_contacts (db demoTwoSent)))" by code_simp
  have h2: "?b \<in> set (campaign_contacts (db demoTwoSent))" by code_simp
  have h3: "blacklistedPending (db demoTwoSent) ''camp1'' ?b" by code_simp
  have h4: "getCampaign (db demoTwoSent) ''camp1'' =
              Some (demoCampaign\<lparr>c_status := Running, started_at := Some ''2026-01-01T10:00:00.000Z''\<rparr>)"
    by code_simp
  have h5: "map_of (objects demoTwoSent) 0 = Some ?st" by code_simp
  have h6: "sentTodayOf ?st ''accA'' <
            max_messages_per_day (demoCampaign\<lparr>c_status := Running, started_at := Some ''2026-01-01T10:00:00.000Z''\<rparr>)"
    by code_simp
  have h7: "isConnected allConnected ''accA''" by code_simp
  have h8: "selectNextPending (db demoTwoSent) ''camp1'' = None" by code_simp
  have m: "?after ! 2 \<in> set ?after" by code_simp
  have i: "cc_id (?after ! 2) = cc_id ?b" "cc_id ?b = ''cc3''" by code_simp+
  from blacklist_exclusion [OF h1 h2 h3, of tenOclockOne allConnected "''accA''" 0
      "demoCampaign\<lparr>c_status := Running, started_at := Some ''2026-01-01T10:00:00.000Z''\<rparr>"
      "\<lparr>isRunning = True, accountTimeouts = [(''accA'', 0), (''accB'', 1)],
        messagesSentToday = [(''accA'', 1), (''accB'', 1)], lastResetDate = ''2026-01-01''\<rparr>"]
    h4 h5 h6 h7 h8 m i h3
  show ?thesis by metis
qed

subsection \<open>Updates of one contact\<close>

lemma campaign_contacts_updateContact:
  "campaign_contacts (updateContact i f d) =
     map (\<lambda>cc. if cc_id cc = i then f cc else cc) (campaign_contacts d)"
  by (simp add: updateContact_def)

lemma in_contacts_updateContact:
  "x \<in> set (campaign_contacts (updateContact i f d)) \<longleftrightarrow>
   (\<exists>y\<in>set (campaign_contacts d). x = (if cc_id y = i then f y else y))"
  unfolding campaign_contacts_updateContact in_set_map_if ..

lemma updated_row:
  assumes "x \<in> set (campaign_contacts (updateContact i f d))" and "cc_id x = i"
    and "\<And>y. cc_id (f y) = cc_id y"
  shows "\<exists>y. x = f y"
proof -
  from assms(1) obtain y where y: "x = (if cc_id y = i then f y else y)"
    unfolding in_contacts_updateContact by blast
  show ?thesis
  proof (cases "cc_id y = i")
    case True
    with y show ?thesis by auto
  next
    case False
    with y assms(2) show ?thesis by simp
  qed
qed


subsection \<open>Starting a campaign without accounts\<close>

text \<open>
  C2. \<^verbatim>\<open>startCampaign\<close> on the draft demo campaign with no participating account
  spawns no worker and creates no \<^verbatim>\<open>CampaignState\<close>, but the update to
  \<^verbatim>\<open>'running'\<close> with \<^verbatim>\<open>started_at\<close> has already been written when the empty
  account list is found: the campaign is persisted as running.
\<close>

theorem start_without_accounts_persists_running:
  "map c_status (campaigns (db demoNoAccounts)) = [Draft]
   \<and> campaign_accounts (db demoNoAccounts) = []
   \<and> map c_status (campaigns (db (startCampaign tenOclock allConnected ''camp1'' demoNoAccounts)))
       = [Running]
   \<and> map started_at (campaigns (db (startCampaign tenOclock allConnected ''camp1'' demoNoAccounts)))
       = [Some ''2026-01-01T10:00:00.000Z'']
   \<and> activeCampaigns (startCampaign tenOclock allConnected ''camp1'' demoNoAccounts) = []
   \<and> timers (startCampaign tenOclock allConnected ''camp1'' demoNoAccounts) = []
   \<and> awaiting (startCampaign tenOclock allConnected ''camp1'' demoNoAccounts) = []"
  by code_simp

subsection \<open>Claims and releases\<close>

lemma limit_reached_cycle:
  assumes "getCampaign (db s) cid = Some campaign" and "map_of (objects s) r = Some st"
    and "sentTodayOf st aid \<ge> max_messages_per_day campaign"
  shows "sendNextMessageFromAccount clk e cid aid r s =
           (armWake r cid aid (msUntilStartHour clk 1 (start_hour campaign)) clk s, Returned)"
  using assms by (simp add: sendNextMessageFromAccount_def)

lemma disconnected_cycle:
  assumes "getCampaign (db s) cid = Some campaign" and "map_of (objects s) r = Some st"
    and "sentTodayOf st aid < max_messages_per_day campaign" and "\<not> isConnected e aid"
  shows "sendNextMessageFromAccount clk e cid aid r s = (s\<lparr>db := releaseStuck cid (db s)\<rparr>, Returned)"
  using assms by (simp add: sendNextMessageFromAccount_def)

lemma claim_marks_sending:
  assumes "snd (sendNextMessageFromAccount clk e cid aid r s) = Claimed c"
    and "x \<in> set (campaign_contacts (db (fst (sendNextMessageFromAccount clk e cid aid r s))))"
    and "cc_id x = cc_id c"
  shows "cc_status x = Sending"
proof -
  from assms(1) have sel: "selectNextPending (db s) cid = Some c" by (rule sendNext_result)
  from assms(1) have "db (fst (sendNextMessageFromAccount clk e cid aid r s)) =
      updateContact (cc_id c) (\<lambda>cc. cc\<lparr>cc_status := Sending\<rparr>) (db s)"
    by (auto simp: sendNextMessageFromAccount_def Let_def split: option.splits if_splits)
  with assms(2) have "x \<in> set (campaign_contacts (updateContact (cc_id c) (\<lambda>cc. cc\<lparr>cc_status := Sending\<rparr>) (db s)))"
    by simp
  from updated_row [OF this assms(3)] obtain y where "x = y\<lparr>cc_status := Sending\<rparr>" by auto
  then show ?thesis by simp
qed

lemma claimed_row_not_claimable:
  assumes "snd (sendNextMessageFromAccount clk e cid aid r s) = Claimed c"
    and "selectNextPending (db (fst (sendNextMessageFromAccount clk e cid aid r s))) cid' = Some c'"
  shows "cc_id c' \<noteq> cc_id c"
proof
  assume "cc_id c' = cc_id c"
  moreover from selectNextPending_Some [OF assms(2)]
  have "c' \<in> set (campaign_contacts (db (fst (sendNextMessageFromAccount clk e cid aid r s))))"
    and "cc_status c' = Pending" by (simp_all add: claimable_def)
  ultimately show False using claim_marks_sending [OF assms(1)] by fastforce
qed

text \<open>
  C1 on the code. A claim marks the row \<^verbatim>\<open>sending\<close> in the same uninterrupted
  block that selected it (\<open>claimed_row_not_claimable\<close>), but the claim is not
  exclusive: \<^verbatim>\<open>startCampaign\<close> on the demo campaign with accounts A, B and C, B not
  connected, runs the three first cycles in turn. A claims \<open>cc1\<close> and waits for the
  transport; the cycle of B releases every \<^verbatim>\<open>sending\<close> row of the campaign; C
  claims \<open>cc1\<close> again. A and C hold the claim on \<open>cc1\<close> at once, and both sends are
  recorded.
\<close>

theorem double_claim_after_release:
  "contactStatuses (freshScheduler raceDb) = [(''cc1'', Pending), (''cc3'', Pending)]
   \<and> selectNextPending raceDb ''camp1'' = Some (demoContact ''cc1'' ''972500000001'' Pending)
   \<and> blacklistPhones raceDb = [''972500000003'']
   \<and> holders raceStarted = [(''accA'', ''cc1''), (''accC'', ''cc1'')]
   \<and> notifications (sendResolved tenOclockOne accBOffline 0 SendOk
        (sendResolved tenOclockOne accBOffline 0 SendOk raceStarted)) =
       [CampaignProgress ''camp1'' ''cc1'' Sent (Some ''accA'') None,
        CampaignProgress ''camp1'' ''cc1'' Sent (Some ''accC'') None]"
  by code_simp

text \<open>
  C9 on the code. The cycle of an account that is not connected claims nothing
  (\<open>disconnected_cycle\<close>), but it releases every \<^verbatim>\<open>sending\<close> row of the campaign
  whose \<^verbatim>\<open>sent_by_account_id\<close> is null, whoever claimed it: in the demo campaign
  account B is connected and waits for the transport with \<open>cc2\<close>; the timer of account
  A, which is no longer connected and never claimed \<open>cc2\<close>, fires, and \<open>cc2\<close> is
  \<^verbatim>\<open>pending\<close> again while B still holds it.
\<close>

theorem disconnected_cycle_releases_foreign_claim:
  "holders demoOneSent = [(''accB'', ''cc2'')]
   \<and> contactStatuses demoOneSent = [(''cc1'', Sent), (''cc2'', Sending), (''cc3'', Pending)]
   \<and> map (\<lambda>t. (t_handle t, t_account t)) (timers demoOneSent) = [(0, ''accA'')]
   \<and> \<not> isConnected accAOffline ''accA'' \<and> isConnected accAOffline ''accB''
   \<and> holders (timerFires tenThirtyOne accAOffline 0 demoOneSent) = [(''accB'', ''cc2'')]
   \<and> contactStatuses (timerFires tenThirtyOne accAOffline 0 demoOneSent) =
       [(''cc1'', Sent), (''cc2'', Pending), (''cc3'', Pending)]"
  by code_simp


subsection \<open>Daily limit\<close>

text \<open>
  C3 on the code. A cycle at the daily limit claims and sends nothing
  (\<open>limit_reached_cycle\<close>) and arms a timer for tomorrow's start hour, but its caller
  then arms a second timer after the usual delay and stores that one in
  \<^verbatim>\<open>accountTimeouts\<close>. Both timers wake the account: here the two loops wake at
  09:00:00 of the next day, both pass the limit check before either send has been
  counted, and the account sends two messages on a day with a limit of one.
\<close>

theorem daily_limit_exceeded_by_second_loop:
  "map max_messages_per_day (campaigns (db capBothSent)) = [1]
   \<and> countersOf capLimitReached 0 = [(''accA'', 1)]
   \<and> armed capLimitReached = [(0, ''accA'', 1767290370000)]
   \<and> armed capAfterLimitCycle = [(1, ''accA'', 1767344400000), (2, ''accA'', 1767290400000)]
   \<and> timeoutsOf capAfterLimitCycle 0 = [(''accA'', 2)]
   \<and> holders capAfterLimitCycle = []
   \<and> armed capEvening = [(1, ''accA'', 1767344400000), (3, ''accA'', 1767344400000)]
   \<and> countersOf capMidnight 0 = [] \<and> armed capMidnight = armed capEvening
   \<and> holders capNextMorning = [(''accA'', ''cc2''), (''accA'', ''cc3'')]
   \<and> countersOf capBothSent 0 = [(''accA'', 2)]
   \<and> contactStatuses capBothSent = [(''cc1'', Sent), (''cc2'', Sent), (''cc3'', Sent)]
   \<and> map sent_at (campaign_contacts (db capBothSent)) =
       [Some ''2026-01-01T17:59:00.000Z'', Some ''2026-01-02T09:00:02.000Z'',
        Some ''2026-01-02T09:00:02.000Z'']"
  by code_simp

subsection \<open>Campaign status\<close>

lemma getCampaign_updateCampaign:
  assumes "\<And>c. c_id (f c) = c_id c"
  shows "getCampaign (updateCampaign c f d) cid =
           (if c = cid then map_option f (getCampaign d cid) else getCampaign d cid)"
proof -
  have "find (\<lambda>x. c_id x = cid) (map (\<lambda>x. if c_id x = c then f x else x) xs) =
          (if c = cid then map_option f (find (\<lambda>x. c_id x = cid) xs)
           else find (\<lambda>x. c_id x = cid) xs)" for xs
    using assms by (induction xs) auto
  then show ?thesis by (simp add: getCampaign_def campaigns_updateCampaign)
qed

lemma campaigns_updateContact [simp]: "campaigns (updateContact i f d) = campaigns d"
  by (simp add: updateContact_def)

lemma campaigns_releaseStuck [simp]: "campaigns (releaseStuck cid d) = campaigns d"
  by (simp add: releaseStuck_def)

lemma campaigns_markSkipped [simp]: "campaigns (markSkipped cid d) = campaigns d"
  by (simp add: markSkipped_def)

lemma campaigns_logActivity [simp]: "campaigns (logActivity ty msg rel clk d) = campaigns d"
  by (simp add: logActivity_def)

lemma campaigns_updateStats [simp]: "campaigns (updateStats clk d) = campaigns d"
  by (simp add: updateStats_def)

lemma getCampaign_cong: "campaigns d = campaigns d' \<Longrightarrow> getCampaign d cid = getCampaign d' cid"
  by (simp add: getCampaign_def)

lemma statusOf_same_campaigns:
  "campaigns (db s') = campaigns (db s) \<Longrightarrow> statusOf s' cid = statusOf s cid"
  by (simp add: statusOf_def getCampaign_def)

lemma statusOf_updateCampaign:
  assumes "\<And>c. c_id (f c) = c_id c" and "\<And>c. c_status (f c) = w"
    and "db s' = updateCampaign cid f (db s)"
  shows "statusOf s' cid' = (if cid = cid' then map_option (\<lambda>_. w) (statusOf s cid') else statusOf s cid')"
  using assms(2,3) by (simp add: statusOf_def getCampaign_updateCampaign [OF assms(1)] option.map_comp o_def)

lemma statusOf_pauseCampaign:
  "statusOf (pauseCampaign cid s) cid' =
     (if cid = cid' then map_option (\<lambda>_. Paused) (statusOf s cid') else statusOf s cid')"
  by (rule statusOf_updateCampaign [OF _ _ db_pauseCampaign]) simp_all

lemma statusOf_stopCampaign:
  "statusOf (stopCampaign clk cid s) cid' =
     (if cid = cid' then map_option (\<lambda>_. Stopped) (statusOf s cid') else statusOf s cid')"
  by (rule statusOf_updateCampaign [OF _ _ db_stopCampaign]) simp_all

lemma statusOf_resetCampaign:
  "statusOf (resetCampaign clk cid s) cid' =
     (if cid = cid' then map_option (\<lambda>_. Draft) (statusOf s cid') else statusOf s cid')"
proof -
  let ?s1 = "(stopCampaign clk cid s)\<lparr>db := resetContacts cid (db (stopCampaign clk cid s))\<rparr>"
  have "statusOf ?s1 cid' = statusOf (stopCampaign clk cid s) cid'"
    by (rule statusOf_same_campaigns) simp
  then have b: "statusOf ?s1 cid' =
      (if cid = cid' then map_option (\<lambda>_. Stopped) (statusOf s cid') else statusOf s cid')"
    by (simp only: statusOf_stopCampaign)
  have c: "statusOf (resetCampaign clk cid s) cid' =
          (if cid = cid' then map_option (\<lambda>_. Draft) (statusOf ?s1 cid') else statusOf ?s1 cid')"
    by (rule statusOf_updateCampaign) (simp_all add: resetCampaign_def Let_def)
  show ?thesis unfolding c b by (simp add: option.map_comp o_def)
qed

lemma statusOf_completeCampaign:
  "statusOf (completeCampaign clk cid s) cid' =
     (if cid = cid' then map_option (\<lambda>_. Completed) (statusOf s cid') else statusOf s cid')"
proof -
  let ?s = "s\<lparr>db := updateCampaign cid
                 (\<lambda>c. c\<lparr>c_status := Completed, completed_at := Some (iso clk)\<rparr>) (db s)\<rparr>"
  have "statusOf (completeCampaign clk cid s) cid' = statusOf ?s cid'"
    by (rule statusOf_same_campaigns) (simp add: completeCampaign_def Let_def)
  moreover have "statusOf ?s cid' =
     (if cid = cid' then map_option (\<lambda>_. Completed) (statusOf s cid') else statusOf s cid')"
    by (rule statusOf_updateCampaign) simp_all
  ultimately show ?thesis by simp
qed

lemma campaigns_sendNext:
  "campaigns (db (fst (sendNextMessageFromAccount clk e cid aid r s))) =
     (if snd (sendNextMessageFromAccount clk e cid aid r s) = Stopping
      then campaigns (updateCampaign cid
                        (\<lambda>c. c\<lparr>c_status := Stopped, completed_at := Some (iso clk)\<rparr>) (db s))
      else campaigns (db s))"
  unfolding sendNextMessageFromAccount_def Let_def
  by (simp split: option.splits add: db_stopCampaign campaigns_updateCampaign)

lemma statusOf_sendNext:
  "statusOf (fst (sendNextMessageFromAccount clk e cid aid r s)) cid' =
     (if snd (sendNextMessageFromAccount clk e cid aid r s) = Stopping \<and> cid = cid'
      then map_option (\<lambda>_. Stopped) (statusOf s cid') else statusOf s cid')"
proof (cases "snd (sendNextMessageFromAccount clk e cid aid r s) = Stopping")
  case False
  with campaigns_sendNext [of clk e cid aid r s]
  have "campaigns (db (fst (sendNextMessageFromAccount clk e cid aid r s))) = campaigns (db s)"
    by simp
  from statusOf_same_campaigns [OF this] False show ?thesis by simp
next
  case True
  let ?s = "s\<lparr>db := updateCampaign cid
                 (\<lambda>c. c\<lparr>c_status := Stopped, completed_at := Some (iso clk)\<rparr>) (db s)\<rparr>"
  from True campaigns_sendNext [of clk e cid aid r s]
  have "campaigns (db (fst (sendNextMessageFromAccount clk e cid aid r s))) = campaigns (db ?s)"
    by simp
  from statusOf_same_campaigns [OF this]
  have "statusOf (fst (sendNextMessageFromAccount clk e cid aid r s)) cid' = statusOf ?s cid'" .
  moreover have "statusOf ?s cid' =
     (if cid = cid' then map_option (\<lambda>_. Stopped) (statusOf s cid') else statusOf s cid')"
    by (rule statusOf_updateCampaign) simp_all
  ultimately show ?thesis using True by simp
qed

lemma db_resetDailyCountersIfNeeded [simp]: "db (resetDailyCountersIfNeeded clk cid s) = db s"
  by (simp add: resetDailyCountersIfNeeded_def split: option.splits prod.splits)

lemma statusOf_armWake [simp]: "statusOf (armWake r c a delay clk s) cid = statusOf s cid"
  by (simp add: statusOf_def)

lemma statusOf_resetDailyCountersIfNeeded [simp]:
  "statusOf (resetDailyCountersIfNeeded clk c s) cid = statusOf s cid"
  by (simp add: statusOf_def)

lemma statusOf_awaiting_update [simp]: "statusOf (s\<lparr>awaiting := fs\<rparr>) cid = statusOf s cid"
  by (simp add: statusOf_def)

lemma statusOf_timers_update [simp]: "statusOf (s\<lparr>timers := ts\<rparr>) cid = statusOf s cid"
  by (simp add: statusOf_def)

lemma statusOf_cycleStart:
  "statusOf (fst (cycleStart clk e cid aid s)) cid' =
     (if endsCampaign (snd (cycleStart clk e cid aid s)) \<and> cid = cid'
      then map_option (\<lambda>_. Stopped) (statusOf s cid') else statusOf s cid')"
proof (cases "stateOf s cid")
  case None
  then show ?thesis by (simp add: cycleStart_def endsCampaign_def)
next
  case (Some p)
  obtain r st where p: "p = (r, st)" by (cases p)
  show ?thesis
  proof (cases "isRunning st")
    case False
    with Some p show ?thesis by (simp add: cycleStart_def endsCampaign_def)
  next
    case run: True
    show ?thesis
    proof (cases "getCampaign (db s) cid")
      case None
      with Some p run show ?thesis by (simp add: cycleStart_def endsCampaign_def)
    next
      case (Some campaign)
      note c = this
      show ?thesis
      proof (cases "outsideWorkingHours (getHours clk) (start_hour campaign) (end_hour campaign)")
        case True
        with \<open>stateOf s cid = Some p\<close> p run c show ?thesis
          by (simp add: cycleStart_def endsCampaign_def)
      next
        case False
        let ?s0 = "resetDailyCountersIfNeeded clk cid s"
        obtain s2 res where sn: "sendNextMessageFromAccount clk e cid aid r ?s0 = (s2, res)"
          by (cases "sendNextMessageFromAccount clk e cid aid r ?s0")
        have s0: "statusOf ?s0 cid' = statusOf s cid'" by simp
        from statusOf_sendNext [of clk e cid aid r ?s0 cid'] sn s0
        have s2: "statusOf s2 cid' =
            (if res = Stopping \<and> cid = cid' then map_option (\<lambda>_. Stopped) (statusOf s cid')
             else statusOf s cid')" by simp
        show ?thesis
        proof (cases res)
          case Returned
          with \<open>stateOf s cid = Some p\<close> p run c False sn s2 show ?thesis
            by (simp add: cycleStart_def endsCampaign_def)
        next
          case Stopping
          with \<open>stateOf s cid = Some p\<close> p run c False sn s2 show ?thesis
            by (simp add: cycleStart_def endsCampaign_def)
        next
          case (Claimed contact)
          with \<open>stateOf s cid = Some p\<close> p run c False sn s2 show ?thesis
            by (simp add: cycleStart_def endsCampaign_def)
        qed
      qed
    qed
  qed
qed

lemma statusOf_cycleResume:
  "statusOf (cycleResume clk e cid aid m s) cid' =
     (if endsCampaign m \<and> cid = cid'
      then map_option (\<lambda>_. Completed) (statusOf s cid') else statusOf s cid')"
proof (cases m)
  case None
  then show ?thesis by (simp add: cycleResume_def endsCampaign_def)
next
  case (Some t)
  show ?thesis
  proof (cases t)
    case (CycleTail r)
    with Some show ?thesis by (simp add: cycleResume_def endsCampaign_def)
  next
    case (CompletionRest r)
    with Some show ?thesis
      by (simp add: cycleResume_def endsCampaign_def statusOf_completeCampaign)
  qed
qed

lemma map_option_const_twice:
  "map_option (\<lambda>_. a) (map_option (\<lambda>_. b) x) = map_option (\<lambda>_. a) x"
  by (cases x) simp_all

lemma statusOf_scheduleNext:
  "statusOf (scheduleNextMessageForAccount clk e cid aid s) cid' =
     (if endsCampaign (snd (cycleStart clk e cid aid s)) \<and> cid = cid'
      then map_option (\<lambda>_. Completed) (statusOf s cid') else statusOf s cid')"
proof -
  obtain s1 m where cs: "cycleStart clk e cid aid s = (s1, m)"
    by (cases "cycleStart clk e cid aid s")
  with statusOf_cycleStart [of clk e cid aid s cid'] statusOf_cycleResume [of clk e cid aid m s1 cid']
  show ?thesis
    by (simp add: scheduleNextMessageForAccount_def map_option_const_twice)
qed

lemma statusOf_timerFires:
  "statusOf (timerFires clk e h s) cid = statusOf s cid
   \<or> statusOf (timerFires clk e h s) cid = Some Completed"
proof (cases "find (\<lambda>t. t_handle t = h) (timers s)")
  case None
  then show ?thesis by (simp add: timerFires_def)
next
  case (Some t)
  let ?s = "s\<lparr>timers := filter (\<lambda>t. t_handle t \<noteq> h) (timers s)\<rparr>"
  have "statusOf ?s cid = statusOf s cid" by simp
  with statusOf_scheduleNext [of clk e "t_campaign t" "t_account t" ?s cid] Some
  show ?thesis by (cases "statusOf s cid") (auto simp: timerFires_def split: if_splits)
qed

lemma statusOf_sendResolved: "statusOf (sendResolved clk e k res s) cid = statusOf s cid"
proof (cases "k < length (awaiting s)")
  case False
  then show ?thesis by (simp add: sendResolved_def)
next
  case True
  show ?thesis
    by (rule statusOf_same_campaigns)
       (simp add: sendResolved_def Let_def sendSucceeded_def sendFailed_def True split: send_result.splits)
qed

lemma db_dailyReset [simp]: "db (dailyReset clk s) = db s"
proof -
  have "db (foldl (\<lambda>s p. updateState (snd p) f s) s ps) = db s" for f ps
    by (induction ps arbitrary: s) simp_all
  then show ?thesis by (simp add: dailyReset_def)
qed

lemma statusOf_startCycles:
  "startCycles clk e cid aids s = (s2, ms) \<Longrightarrow>
   statusOf s2 cid' =
     (if (\<exists>p\<in>set ms. endsCampaign (snd p)) \<and> cid = cid'
      then map_option (\<lambda>_. Stopped) (statusOf s cid') else statusOf s cid')"
proof (induction aids arbitrary: s s2 ms)
  case Nil
  then show ?case by simp
next
  case (Cons a aids)
  obtain s1 m where cs: "cycleStart clk e cid a s = (s1, m)" by (cases "cycleStart clk e cid a s")
  obtain s3 ms' where rec: "startCycles clk e cid aids s1 = (s3, ms')"
    by (cases "startCycles clk e cid aids s1")
  from Cons.prems cs rec have eq: "s2 = s3" "ms = (a, m) # ms'" by simp_all
  from statusOf_cycleStart [of clk e cid a s cid'] cs
  have s1: "statusOf s1 cid' =
      (if endsCampaign m \<and> cid = cid' then map_option (\<lambda>_. Stopped) (statusOf s cid')
       else statusOf s cid')" by simp
  from Cons.IH [OF rec] s1 eq show ?case by (auto simp: map_option_const_twice)
qed

lemma statusOf_resumeCycles:
  "statusOf (resumeCycles clk e cid ms s) cid' =
     (if (\<exists>p\<in>set ms. endsCampaign (snd p)) \<and> cid = cid'
      then map_option (\<lambda>_. Completed) (statusOf s cid') else statusOf s cid')"
proof (induction ms arbitrary: s)
  case Nil
  then show ?case by simp
next
  case (Cons p ms)
  from Cons [of "cycleResume clk e cid (fst p) (snd p) s"]
    statusOf_cycleResume [of clk e cid "fst p" "snd p" s cid']
  show ?case by (auto simp: map_option_const_twice)
qed

lemma statusOf_startCampaign:
  "statusOf (startCampaign clk e cid s) cid' = statusOf s cid'
   \<or> cid' = cid \<and> (statusOf (startCampaign clk e cid s) cid' = Some Running
                    \<or> statusOf (startCampaign clk e cid s) cid' = Some Completed)"
proof (cases "map_of (activeCampaigns s) cid \<noteq> None \<or> getCampaign (db s) cid = None")
  case True
  then show ?thesis by (auto simp: startCampaign_def)
next
  case False
  then obtain campaign where c: "getCampaign (db s) cid = Some campaign"
    and na: "map_of (activeCampaigns s) cid = None" by auto
  define f :: "campaign \<Rightarrow> campaign" where "f = (\<lambda>c. c\<lparr>c_status := Running,
                    started_at := (case started_at c of None \<Rightarrow> Some (iso clk) | Some t \<Rightarrow> Some t)\<rparr>)"
  define s1 where "s1 = s\<lparr>db := updateCampaign cid f (db s)\<rparr>"
  define s2 where "s2 = s1\<lparr>activeCampaigns := map_set cid (newRef (objects s1)) (activeCampaigns s1),
                 objects := map_set (newRef (objects s1))
                              \<lparr>isRunning = True, accountTimeouts = [],
                               messagesSentToday = [], lastResetDate = dateKey clk\<rparr>
                              (objects s1)\<rparr>"
  define aids where "aids = map snd (filter (\<lambda>p. fst p = cid) (campaign_accounts (db s1)))"
  obtain s3 ms where sc: "startCycles clk e cid aids s2 = (s3, ms)"
    by (cases "startCycles clk e cid aids s2")
  have s1: "statusOf s1 cid' = (if cid = cid' then map_option (\<lambda>_. Running) (statusOf s cid') else statusOf s cid')"
    by (rule statusOf_updateCampaign [where f = f]) (simp_all add: f_def s1_def)
  have s2: "statusOf s2 cid' = statusOf s1 cid'" by (simp add: statusOf_def s2_def)
  have ex: "statusOf s cid = Some (c_status campaign)" using c by (simp add: statusOf_def)
  have r: "startCampaign clk e cid s = (if aids = [] then s1 else resumeCycles clk e cid ms s3)"
    using c na sc by (simp add: startCampaign_def Let_def aids_def s2_def s1_def f_def)
  have fin: "statusOf (resumeCycles clk e cid ms s3) cid' =
     (if (\<exists>p\<in>set ms. endsCampaign (snd p)) \<and> cid = cid'
      then map_option (\<lambda>_. Completed) (statusOf s2 cid') else statusOf s2 cid')"
    unfolding statusOf_resumeCycles statusOf_startCycles [OF sc]
    by (simp add: map_option_const_twice)
  show ?thesis
  proof (cases "cid' = cid")
    case False
    with s1 s2 fin r show ?thesis by auto
  next
    case True
    with s1 s2 ex have a: "statusOf s1 cid' = Some Running" "statusOf s2 cid' = Some Running" by auto
    with fin r True show ?thesis by (cases "aids = []") auto
  qed
qed

lemma statusOf_startCampaign_unregistered:
  assumes na: "map_of (activeCampaigns s) cid = None" and ex: "statusOf s cid \<noteq> None"
  shows "statusOf (startCampaign clk e cid s) cid = Some Running
       \<or> statusOf (startCampaign clk e cid s) cid = Some Completed"
proof -
  from ex obtain campaign where c: "getCampaign (db s) cid = Some campaign"
    by (auto simp: statusOf_def)
  define f :: "campaign \<Rightarrow> campaign" where "f = (\<lambda>c. c\<lparr>c_status := Running,
                    started_at := (case started_at c of None \<Rightarrow> Some (iso clk) | Some t \<Rightarrow> Some t)\<rparr>)"
  define s1 where "s1 = s\<lparr>db := updateCampaign cid f (db s)\<rparr>"
  define s2 where "s2 = s1\<lparr>activeCampaigns := map_set cid (newRef (objects s1)) (activeCampaigns s1),
                 objects := map_set (newRef (objects s1))
                              \<lparr>isRunning = True, accountTimeouts = [],
                               messagesSentToday = [], lastResetDate = dateKey clk\<rparr>
                              (objects s1)\<rparr>"
  define aids where "aids = map snd (filter (\<lambda>p. fst p = cid) (campaign_accounts (db s1)))"
  obtain s3 ms where sc: "startCycles clk e cid aids s2 = (s3, ms)"
    by (cases "startCycles clk e cid aids s2")
  have "statusOf s1 cid = (if cid = cid then map_option (\<lambda>_. Running) (statusOf s cid) else statusOf s cid)"
    by (rule statusOf_updateCampaign [where f = f]) (simp_all add: f_def s1_def)
  with ex have s1: "statusOf s1 cid = Some Running" by auto
  have "statusOf s2 cid = statusOf s1 cid" by (simp add: statusOf_def s2_def)
  with s1 have s2: "statusOf s2 cid = Some Running" by simp
  have r: "startCampaign clk e cid s = (if aids = [] then s1 else resumeCycles clk e cid ms s3)"
    using c na sc by (simp add: startCampaign_def Let_def aids_def s2_def s1_def f_def)
  have fin: "statusOf (resumeCycles clk e cid ms s3) cid =
     (if (\<exists>p\<in>set ms. endsCampaign (snd p)) \<and> cid = cid
      then map_option (\<lambda>_. Completed) (statusOf s2 cid) else statusOf s2 cid)"
    unfolding statusOf_resumeCycles statusOf_startCycles [OF sc]
    by (simp add: map_option_const_twice)
  from s1 s2 fin r show ?thesis by (cases "aids = []") auto
qed

text \<open>
  C8, as the code has it. An operation leaves the persisted status of a campaign as it
  was or writes one of the statuses of \<open>writes\<close>, whatever the status was:
  \<^verbatim>\<open>startCampaign\<close> writes \<^verbatim>\<open>running\<close> (and \<^verbatim>\<open>completed\<close> when a first
  cycle finds nothing to send), \<^verbatim>\<open>pauseCampaign\<close> \<^verbatim>\<open>paused\<close>,
  \<^verbatim>\<open>stopCampaign\<close> \<^verbatim>\<open>stopped\<close>, \<^verbatim>\<open>resetCampaign\<close> \<^verbatim>\<open>draft\<close>, a
  cycle woken by a timer \<^verbatim>\<open>completed\<close>; a resolved send and the midnight reset
  write none. Only \<^verbatim>\<open>resetCampaign\<close> moves a status to \<^verbatim>\<open>draft\<close>.
\<close>

theorem status_writes:
  "(statusOf (step clk e op s) cid = statusOf s cid
     \<or> (\<exists>w\<in>set (writes op cid). statusOf (step clk e op s) cid = Some w))
   \<and> (statusOf (step clk e op s) cid = Some Draft \<longrightarrow>
        statusOf s cid = Some Draft \<or> op = ResetCampaign cid)"
proof -
  have main: "statusOf (step clk e op s) cid = statusOf s cid
     \<or> (\<exists>w\<in>set (writes op cid). statusOf (step clk e op s) cid = Some w)"
  proof (cases op)
    case (StartCampaign c)
    with statusOf_startCampaign [of clk e c s cid] show ?thesis
      by (auto simp: step_def writes_def)
  next
    case (PauseCampaign c)
    then show ?thesis
      by (cases "statusOf s cid") (auto simp: step_def writes_def statusOf_pauseCampaign)
  next
    case (StopCampaign c)
    then show ?thesis
      by (cases "statusOf s cid") (auto simp: step_def writes_def statusOf_stopCampaign)
  next
    case (ResetCampaign c)
    then show ?thesis
      by (cases "statusOf s cid") (auto simp: step_def writes_def statusOf_resetCampaign)
  next
    case (TimerFires h)
    with statusOf_timerFires [of clk e h s cid] show ?thesis
      by (auto simp: step_def writes_def)
  next
    case (SendResolves k res)
    then show ?thesis by (simp add: step_def statusOf_sendResolved)
  next
    case MidnightReset
    then show ?thesis by (simp add: step_def statusOf_def)
  qed
  have "statusOf s cid = Some Draft \<or> op = ResetCampaign cid"
    if d: "statusOf (step clk e op s) cid = Some Draft"
  proof (rule ccontr)
    assume n: "\<not> (statusOf s cid = Some Draft \<or> op = ResetCampaign cid)"
    with main d obtain w where w: "w \<in> set (writes op cid)" "w = Draft" by auto
    with n show False by (cases op) (auto simp: writes_def split: if_splits)
  qed
  with main show ?thesis by blast
qed

theorem status_writes_witness:
  "statusOf soloStopped ''camp1'' = Some Stopped
   \<and> statusOf (step tenThirtyOne allConnected (ResetCampaign ''camp1'') soloStopped) ''camp1'' = Some Draft
   \<and> (\<exists>w\<in>set (writes (ResetCampaign ''camp1'') ''camp1'').
         statusOf (step tenThirtyOne allConnected (ResetCampaign ''camp1'') soloStopped) ''camp1'' = Some w)"
proof -
  have a: "statusOf soloStopped ''camp1'' = Some Stopped" by code_simp
  have b: "statusOf (step tenThirtyOne allConnected (ResetCampaign ''camp1'') soloStopped) ''camp1'' = Some Draft"
    by code_simp
  from status_writes [of tenThirtyOne allConnected "ResetCampaign ''camp1''" soloStopped "''camp1''"] a b
  show ?thesis by simp
qed

text \<open>
  The status does not only move along draft, running, paused and back, stopped or
  completed. The cycle that ends a campaign writes \<^verbatim>\<open>stopped\<close> (it calls
  \<^verbatim>\<open>stopCampaign\<close>) and then \<^verbatim>\<open>completed\<close>; and after \<^verbatim>\<open>stopCampaign\<close>,
  \<^verbatim>\<open>startCampaign\<close> takes the stopped campaign to \<^verbatim>\<open>completed\<close> (nothing left
  to send) or back to \<^verbatim>\<open>running\<close>, and \<^verbatim>\<open>pauseCampaign\<close> takes it to
  \<^verbatim>\<open>paused\<close>.
\<close>

theorem status_monotone_counterexample:
  "statusOf (freshScheduler soloDb) ''camp1'' = Some Draft
   \<and> statusOf soloSent ''camp1'' = Some Running
   \<and> statusOf (fst (cycleStart tenThirtyOne allConnected ''camp1'' ''accA''
         (soloSent\<lparr>timers := []\<rparr>))) ''camp1'' = Some Stopped
   \<and> statusOf (step tenThirtyOne allConnected (TimerFires 0) soloSent) ''camp1'' = Some Completed
   \<and> statusOf soloStopped ''camp1'' = Some Stopped
   \<and> statusOf (step tenThirtyOne allConnected (StartCampaign ''camp1'') soloStopped) ''camp1''
       = Some Completed
   \<and> statusOf (step tenThirtyOne allConnected (PauseCampaign ''camp1'') soloStopped) ''camp1''
       = Some Paused
   \<and> statusOf (step tenOclockOne allConnected (StopCampaign ''camp1'') demoOneSent) ''camp1''
       = Some Stopped
   \<and> statusOf (step tenThirtyOne allConnected (StartCampaign ''camp1'')
         (step tenOclockOne allConnected (StopCampaign ''camp1'') demoOneSent)) ''camp1''
       = Some Running"
  by code_simp

subsection \<open>Pause, then start\<close>

lemma map_of_map_set: "map_of (map_set k v ps) k' = (if k' = k then Some v else map_of ps k')"
  by (induction ps) auto

lemma map_of_map_delete_other: "k' \<noteq> k \<Longrightarrow> map_of (map_delete k ps) k' = map_of ps k'"
  by (induction ps) (auto simp: map_delete_def)

lemma newRef_above: "map_of objs r = Some st \<Longrightarrow> r < newRef objs"
  by (induction objs) (auto simp: newRef_def split: if_splits)

lemma haltedAt_db [simp]: "haltedAt cid r (s\<lparr>db := d\<rparr>) = haltedAt cid r s"
  by (simp add: haltedAt_def)

lemma haltedAt_timers [simp]: "haltedAt cid r (s\<lparr>timers := ts\<rparr>) = haltedAt cid r s"
  by (simp add: haltedAt_def)

lemma haltedAt_awaiting [simp]: "haltedAt cid r (s\<lparr>awaiting := fs\<rparr>) = haltedAt cid r s"
  by (simp add: haltedAt_def)

lemma haltedAt_notifications [simp]: "haltedAt cid r (s\<lparr>notifications := ns\<rparr>) = haltedAt cid r s"
  by (simp add: haltedAt_def)

lemma haltedAt_updateState:
  assumes "\<And>st. isRunning (f st) = isRunning st"
  shows "haltedAt cid r (updateState r' f s) = haltedAt cid r s"
  using assms by (auto simp: haltedAt_def updateState_def map_of_map_set split: option.splits)

lemma haltedAt_updateState_halt:
  assumes "\<And>st. \<not> isRunning (f st)" and "haltedAt cid r s"
  shows "haltedAt cid r (updateState r' f s)"
  using assms by (auto simp: haltedAt_def updateState_def map_of_map_set split: option.splits)

lemma haltedAt_setTimeout_wake [simp]:
  "haltedAt cid r (setTimeout_wake c a delay clk s) = haltedAt cid r s"
  by (simp add: haltedAt_def setTimeout_wake_def)

lemma haltedAt_armWake [simp]: "haltedAt cid r (armWake r' c a delay clk s) = haltedAt cid r s"
  by (simp add: armWake_def haltedAt_updateState)

lemma haltedAt_clearTimeouts [simp]: "haltedAt cid r (clearTimeouts hs s) = haltedAt cid r s"
  by (simp add: clearTimeouts_def)

lemma haltedAt_haltWorkers: "haltedAt cid r s \<Longrightarrow> haltedAt cid r (haltWorkers c s)"
  by (auto simp: haltWorkers_def intro!: haltedAt_updateState_halt split: option.splits)

lemma haltedAt_pauseCampaign: "haltedAt cid r s \<Longrightarrow> haltedAt cid r (pauseCampaign c s)"
  by (simp add: pauseCampaign_def Let_def haltedAt_haltWorkers)

lemma haltedAt_stopCampaign:
  assumes "c \<noteq> cid" and "haltedAt cid r s"
  shows "haltedAt cid r (stopCampaign clk c s)"
proof (cases "stateOf s c")
  case None
  with assms show ?thesis by (simp add: stopCampaign_def)
next
  case (Some p)
  from haltedAt_haltWorkers [OF assms(2), of c] assms(1)
  have "haltedAt cid r ((haltWorkers c s)\<lparr>activeCampaigns := map_delete c (activeCampaigns s)\<rparr>)"
    by (simp add: haltedAt_def map_of_map_delete_other)
  with Some show ?thesis by (simp add: stopCampaign_def)
qed

lemma haltedAt_resetCampaign:
  "c \<noteq> cid \<Longrightarrow> haltedAt cid r s \<Longrightarrow> haltedAt cid r (resetCampaign clk c s)"
  by (simp add: resetCampaign_def Let_def haltedAt_stopCampaign)

lemma haltedAt_completeCampaign [simp]:
  "haltedAt cid r (completeCampaign clk c s) = haltedAt cid r s"
  by (simp add: completeCampaign_def Let_def haltedAt_def)

lemma haltedAt_resetDailyCountersIfNeeded [simp]:
  "haltedAt cid r (resetDailyCountersIfNeeded clk c s) = haltedAt cid r s"
  by (simp add: resetDailyCountersIfNeeded_def haltedAt_updateState split: option.splits prod.splits)

lemma haltedAt_sendNext:
  assumes "c \<noteq> cid" and "haltedAt cid r s"
  shows "haltedAt cid r (fst (sendNextMessageFromAccount clk e c aid r' s))"
proof -
  have del: "haltedAt cid r (updateState r'
               (\<lambda>st. st\<lparr>accountTimeouts := map_delete aid (accountTimeouts st)\<rparr>) s') = haltedAt cid r s'"
    for s' by (rule haltedAt_updateState) simp
  have stop: "haltedAt cid r (stopCampaign clk c s')" if "haltedAt cid r s'" for s'
    using assms(1) that by (rule haltedAt_stopCampaign)
  show ?thesis
    unfolding sendNextMessageFromAccount_def Let_def
    using assms(2) by (auto split: option.splits simp: del intro!: stop)
qed

lemma cycleStart_halted:
  assumes "haltedAt cid r s"
  shows "cycleStart clk e cid aid s = (s, None)"
proof -
  from assms obtain st where "map_of (activeCampaigns s) cid = Some r"
    "map_of (objects s) r = Some st" "\<not> isRunning st"
    by (auto simp: haltedAt_def split: option.splits)
  then show ?thesis by (simp add: cycleStart_def stateOf_def)
qed

lemma haltedAt_cycleStart:
  assumes "haltedAt cid r s"
  shows "haltedAt cid r (fst (cycleStart clk e c aid s))"
proof (cases "c = cid")
  case True
  with assms cycleStart_halted [OF assms] show ?thesis by simp
next
  case False
  show ?thesis
  proof (cases "stateOf s c")
    case None
    with assms show ?thesis by (simp add: cycleStart_def)
  next
    case (Some p)
    obtain r' st where p: "p = (r', st)" by (cases p)
    let ?s0 = "resetDailyCountersIfNeeded clk c s"
    obtain s2 res where sn: "sendNextMessageFromAccount clk e c aid r' ?s0 = (s2, res)"
      by (cases "sendNextMessageFromAccount clk e c aid r' ?s0")
    from haltedAt_sendNext [OF False, of r ?s0 clk e aid r'] assms sn
    have s2: "haltedAt cid r s2" by simp
    show ?thesis
      using Some p assms sn s2
      by (cases res) (auto simp: cycleStart_def split: option.splits)
  qed
qed

lemma haltedAt_cycleResume [simp]:
  "haltedAt cid r (cycleResume clk e c aid m s) = haltedAt cid r s"
  by (simp add: cycleResume_def split: option.splits microtask.splits)

lemma haltedAt_scheduleNext:
  "haltedAt cid r s \<Longrightarrow> haltedAt cid r (scheduleNextMessageForAccount clk e c aid s)"
  using haltedAt_cycleStart [of cid r s clk e c aid]
  by (cases "cycleStart clk e c aid s") (simp add: scheduleNextMessageForAccount_def)

lemma haltedAt_timerFires: "haltedAt cid r s \<Longrightarrow> haltedAt cid r (timerFires clk e h s)"
  by (simp add: timerFires_def haltedAt_scheduleNext split: option.splits)

lemma haltedAt_sendResolved: "haltedAt cid r (sendResolved clk e k res s) = haltedAt cid r s"
proof -
  have cnt: "haltedAt cid r (updateState r'
               (\<lambda>st. st\<lparr>messagesSentToday := map_set a (sentTodayOf st a + 1) (messagesSentToday st)\<rparr>) s')
             = haltedAt cid r s'" for r' a s'
    by (rule haltedAt_updateState) simp
  show ?thesis
    by (simp add: sendResolved_def Let_def sendSucceeded_def sendFailed_def cnt split: send_result.splits)
qed

lemma haltedAt_dailyReset: "haltedAt cid r (dailyReset clk s) = haltedAt cid r s"
proof -
  have one: "haltedAt cid r (updateState r'
               (\<lambda>st. st\<lparr>messagesSentToday := [], lastResetDate := dateKey clk\<rparr>) s') = haltedAt cid r s'"
    for r' s' by (rule haltedAt_updateState) simp
  have "haltedAt cid r (foldl (\<lambda>s p. updateState (snd p)
          (\<lambda>st. st\<lparr>messagesSentToday := [], lastResetDate := dateKey clk\<rparr>) s) s' ps) = haltedAt cid r s'"
    for ps s' by (induction ps arbitrary: s') (simp_all add: one)
  then show ?thesis by (simp add: dailyReset_def)
qed

lemma haltedAt_startCycles:
  "haltedAt cid r s \<Longrightarrow> haltedAt cid r (fst (startCycles clk e c aids s))"
proof (induction aids arbitrary: s)
  case Nil
  then show ?case by simp
next
  case (Cons a aids)
  obtain s1 m where cs: "cycleStart clk e c a s = (s1, m)" by (cases "cycleStart clk e c a s")
  with haltedAt_cycleStart [OF Cons.prems, of clk e c a] have "haltedAt cid r s1" by simp
  from Cons.IH [OF this] cs show ?case
    by (cases "startCycles clk e c aids s1") simp
qed

lemma haltedAt_resumeCycles [simp]:
  "haltedAt cid r (resumeCycles clk e c ms s) = haltedAt cid r s"
  by (induction ms arbitrary: s) simp_all

lemma startCampaign_registered:
  "map_of (activeCampaigns s) cid \<noteq> None \<Longrightarrow> startCampaign clk e cid s = s"
  by (simp add: startCampaign_def)

lemma haltedAt_startCampaign:
  assumes "haltedAt cid r s"
  shows "haltedAt cid r (startCampaign clk e c s)"
proof (cases "c = cid")
  case True
  from assms have "map_of (activeCampaigns s) cid \<noteq> None" by (simp add: haltedAt_def)
  with True assms show ?thesis by (simp add: startCampaign_registered)
next
  case False
  show ?thesis
  proof (cases "map_of (activeCampaigns s) c \<noteq> None \<or> getCampaign (db s) c = None")
    case True
    with assms show ?thesis by (auto simp: startCampaign_def)
  next
    case nt: False
    then obtain campaign where cm: "getCampaign (db s) c = Some campaign"
      and na: "map_of (activeCampaigns s) c = None" by auto
    define f :: "campaign \<Rightarrow> campaign" where "f = (\<lambda>c. c\<lparr>c_status := Running,
                    started_at := (case started_at c of None \<Rightarrow> Some (iso clk) | Some t \<Rightarrow> Some t)\<rparr>)"
    define s1 where "s1 = s\<lparr>db := updateCampaign c f (db s)\<rparr>"
    define s2 where "s2 = s1\<lparr>activeCampaigns := map_set c (newRef (objects s1)) (activeCampaigns s1),
                 objects := map_set (newRef (objects s1))
                              \<lparr>isRunning = True, accountTimeouts = [],
                               messagesSentToday = [], lastResetDate = dateKey clk\<rparr>
                              (objects s1)\<rparr>"
    define aids where "aids = map snd (filter (\<lambda>p. fst p = c) (campaign_accounts (db s1)))"
    have h1: "haltedAt cid r s1" using assms by (simp add: s1_def)
    then have h2: "haltedAt cid r s2"
      using False
      by (auto simp: s2_def haltedAt_def map_of_map_set split: option.splits dest: newRef_above)
    obtain s3 ms where sc: "startCycles clk e c aids s2 = (s3, ms)"
      by (cases "startCycles clk e c aids s2")
    with haltedAt_startCycles [OF h2, of clk e c aids] have h3: "haltedAt cid r s3" by simp
    have "startCampaign clk e c s = (if aids = [] then s1 else resumeCycles clk e c ms s3)"
      using cm na sc by (simp add: startCampaign_def Let_def aids_def s2_def s1_def f_def)
    with h1 h3 show ?thesis by simp
  qed
qed

lemma haltedAt_step:
  assumes "haltedAt cid r s" and "op \<noteq> StopCampaign cid" and "op \<noteq> ResetCampaign cid"
  shows "haltedAt cid r (step clk e op s)"
  using assms
  by (cases op)
     (simp_all add: step_def haltedAt_startCampaign haltedAt_pauseCampaign haltedAt_stopCampaign
        haltedAt_resetCampaign haltedAt_timerFires haltedAt_sendResolved haltedAt_dailyReset)

lemma haltedAt_run:
  assumes "haltedAt cid r s"
    and "\<forall>ev\<in>set evs. snd (snd ev) \<noteq> StopCampaign cid \<and> snd (snd ev) \<noteq> ResetCampaign cid"
  shows "haltedAt cid r (run evs s)"
  using assms unfolding run_def
proof (induction evs arbitrary: s)
  case Nil
  then show ?case by simp
next
  case (Cons ev evs)
  from Cons.prems have "haltedAt cid r (step (fst ev) (fst (snd ev)) (snd (snd ev)) s)"
    by (intro haltedAt_step) simp_all
  with Cons show ?case by simp
qed

lemma haltedAt_after_pause:
  assumes "stateOf s cid = Some (r, st)"
  shows "haltedAt cid r (pauseCampaign cid s)"
proof -
  from assms(1) have reg: "map_of (activeCampaigns s) cid = Some r" and obj: "map_of (objects s) r = Some st"
    by (auto simp: stateOf_def split: option.splits)
  have "haltedAt cid r (haltWorkers cid s)"
    using assms reg obj
    by (simp add: haltWorkers_def haltedAt_def updateState_def clearTimeouts_def map_of_map_set)
  then show ?thesis by (simp add: pauseCampaign_def Let_def)
qed

lemma paused_step:
  assumes h: "haltedAt cid r s" and ns: "op \<noteq> StopCampaign cid" and nr: "op \<noteq> ResetCampaign cid"
    and p: "statusOf s cid = Some Paused"
  shows "statusOf (step clk e op s) cid = Some Paused"
proof (cases op)
  case (StartCampaign c)
  show ?thesis
  proof (cases "c = cid")
    case True
    from h have "map_of (activeCampaigns s) cid \<noteq> None" by (simp add: haltedAt_def)
    with True StartCampaign p show ?thesis by (simp add: step_def startCampaign_registered)
  next
    case False
    with statusOf_startCampaign [of clk e c s cid] StartCampaign p show ?thesis
      by (auto simp: step_def)
  qed
next
  case (PauseCampaign c)
  with p show ?thesis by (simp add: step_def statusOf_pauseCampaign)
next
  case (StopCampaign c)
  with ns p show ?thesis by (auto simp: step_def statusOf_stopCampaign)
next
  case (ResetCampaign c)
  with nr p show ?thesis by (auto simp: step_def statusOf_resetCampaign)
next
  case (TimerFires hd)
  show ?thesis
  proof (cases "find (\<lambda>t. t_handle t = hd) (timers s)")
    case None
    with TimerFires p show ?thesis by (simp add: step_def timerFires_def)
  next
    case (Some t)
    let ?s = "s\<lparr>timers := filter (\<lambda>t. t_handle t \<noteq> hd) (timers s)\<rparr>"
    have hs: "haltedAt cid r ?s" using h by simp
    have "statusOf (scheduleNextMessageForAccount clk e (t_campaign t) (t_account t) ?s) cid =
          statusOf ?s cid"
    proof (cases "t_campaign t = cid")
      case True
      with cycleStart_halted [OF hs, of clk e "t_account t"] show ?thesis
        by (simp add: statusOf_scheduleNext endsCampaign_def)
    next
      case False
      then show ?thesis by (simp add: statusOf_scheduleNext)
    qed
    with Some TimerFires p show ?thesis by (simp add: step_def timerFires_def)
  qed
next
  case (SendResolves k res)
  with p show ?thesis by (simp add: step_def statusOf_sendResolved)
next
  case MidnightReset
  with p show ?thesis by (simp add: step_def statusOf_def)
qed

lemma paused_run:
  assumes "haltedAt cid r s" and "statusOf s cid = Some Paused"
    and "\<forall>ev\<in>set evs. snd (snd ev) \<noteq> StopCampaign cid \<and> snd (snd ev) \<noteq> ResetCampaign cid"
  shows "statusOf (run evs s) cid = Some Paused"
  using assms unfolding run_def
proof (induction evs arbitrary: s)
  case Nil
  then show ?case by simp
next
  case (Cons ev evs)
  from Cons.prems have a: "haltedAt cid r (step (fst ev) (fst (snd ev)) (snd (snd ev)) s)"
    by (intro haltedAt_step) simp_all
  from Cons.prems have b: "statusOf (step (fst ev) (fst (snd ev)) (snd (snd ev)) s) cid = Some Paused"
    by (intro paused_step [where r = r]) simp_all
  from Cons.IH [OF a b] Cons.prems(3) show ?case by simp
qed

lemma registered_after_pause:
  assumes "stateOf s cid = Some (r, st)"
    and "\<forall>ev\<in>set evs. snd (snd ev) \<noteq> StopCampaign cid \<and> snd (snd ev) \<noteq> ResetCampaign cid"
  shows "map_of (activeCampaigns (pauseCampaign cid s)) cid = Some r
       \<and> map_of (activeCampaigns (run evs (pauseCampaign cid s))) cid = Some r
       \<and> startCampaign clk e cid (run evs (pauseCampaign cid s)) = run evs (pauseCampaign cid s)
       \<and> (statusOf s cid \<noteq> None \<longrightarrow>
            statusOf (startCampaign clk e cid (run evs (pauseCampaign cid s))) cid = Some Paused)"
proof -
  have h0: "haltedAt cid r (pauseCampaign cid s)" using assms(1) by (rule haltedAt_after_pause)
  then have h: "haltedAt cid r (run evs (pauseCampaign cid s))" using assms(2) by (rule haltedAt_run)
  from h0 have reg0: "map_of (activeCampaigns (pauseCampaign cid s)) cid = Some r"
    by (simp add: haltedAt_def)
  from h have reg: "map_of (activeCampaigns (run evs (pauseCampaign cid s))) cid = Some r"
    by (simp add: haltedAt_def)
  then have noop: "startCampaign clk e cid (run evs (pauseCampaign cid s)) = run evs (pauseCampaign cid s)"
    by (simp add: startCampaign_registered)
  have "statusOf (run evs (pauseCampaign cid s)) cid = Some Paused" if "statusOf s cid \<noteq> None"
  proof -
    from that have "statusOf (pauseCampaign cid s) cid = Some Paused"
      by (auto simp: statusOf_pauseCampaign)
    with h0 assms(2) show ?thesis by (intro paused_run [where r = r])
  qed
  with reg0 reg noop show ?thesis by simp
qed

lemma unregistered_after_pause:
  assumes "map_of (activeCampaigns s) cid = None" and "statusOf s cid \<noteq> None"
  shows "statusOf (pauseCampaign cid s) cid = Some Paused
       \<and> map_of (activeCampaigns (pauseCampaign cid s)) cid = None
       \<and> (statusOf (startCampaign clk e cid (pauseCampaign cid s)) cid = Some Running
          \<or> statusOf (startCampaign clk e cid (pauseCampaign cid s)) cid = Some Completed)"
proof -
  from assms(2) have p: "statusOf (pauseCampaign cid s) cid = Some Paused"
    by (auto simp: statusOf_pauseCampaign)
  from assms(1) have n: "map_of (activeCampaigns (pauseCampaign cid s)) cid = None" by simp
  from p have "statusOf (pauseCampaign cid s) cid \<noteq> None" by simp
  from statusOf_startCampaign_unregistered [OF n this, of clk e] p n show ?thesis by simp
qed

text \<open>
  C10, as the code has it. \<^verbatim>\<open>pauseCampaign\<close> leaves the campaign's
  \<^verbatim>\<open>CampaignState\<close> in \<^verbatim>\<open>activeCampaigns\<close>. For a campaign that has one when
  it is paused, whatever happens after the pause short of \<^verbatim>\<open>stopCampaign\<close> or
  \<^verbatim>\<open>resetCampaign\<close> of that campaign, a later \<^verbatim>\<open>startCampaign\<close> changes
  nothing: it spawns no worker, and the persisted status is still \<^verbatim>\<open>paused\<close>. For
  a campaign that has none when it is paused, \<^verbatim>\<open>pauseCampaign\<close> writes
  \<^verbatim>\<open>paused\<close> and the campaign is still not in the registry, so that
  \<^verbatim>\<open>startCampaign\<close> does not return early: it writes \<^verbatim>\<open>running\<close> (and
  \<^verbatim>\<open>completed\<close> after it when a first cycle finds nothing to send).
\<close>

theorem start_after_pause_is_noop:
  assumes "\<forall>ev\<in>set evs. snd (snd ev) \<noteq> StopCampaign cid \<and> snd (snd ev) \<noteq> ResetCampaign cid"
  shows "(stateOf s cid = Some (r, st) \<longrightarrow>
            map_of (activeCampaigns (pauseCampaign cid s)) cid = Some r
          \<and> map_of (activeCampaigns (run evs (pauseCampaign cid s))) cid = Some r
          \<and> startCampaign clk e cid (run evs (pauseCampaign cid s)) = run evs (pauseCampaign cid s)
          \<and> (statusOf s cid \<noteq> None \<longrightarrow>
               statusOf (startCampaign clk e cid (run evs (pauseCampaign cid s))) cid = Some Paused))
       \<and> (map_of (activeCampaigns s) cid = None \<and> statusOf s cid \<noteq> None \<longrightarrow>
            statusOf (pauseCampaign cid s) cid = Some Paused
          \<and> map_of (activeCampaigns (pauseCampaign cid s)) cid = None
          \<and> (statusOf (startCampaign clk e cid (pauseCampaign cid s)) cid = Some Running
             \<or> statusOf (startCampaign clk e cid (pauseCampaign cid s)) cid = Some Completed))"
  using registered_after_pause [OF _ assms, of s r st clk e]
    unregistered_after_pause [of s cid clk e]
  by blast

theorem start_after_pause_is_noop_witness:
  "map_of (activeCampaigns demoOneSent) ''camp1'' = Some 0
   \<and> statusOf demoOneSent ''camp1'' = Some Running
   \<and> armed (run afterPause (pauseCampaign ''camp1'' demoOneSent)) = []
   \<and> startCampaign tenOhOneOhOne allConnected ''camp1''
         (run afterPause (pauseCampaign ''camp1'' demoOneSent))
       = run afterPause (pauseCampaign ''camp1'' demoOneSent)
   \<and> statusOf (startCampaign tenOhOneOhOne allConnected ''camp1''
         (run afterPause (pauseCampaign ''camp1'' demoOneSent))) ''camp1'' = Some Paused
   \<and> map_of (activeCampaigns restartedScheduler) ''camp1'' = None
   \<and> statusOf restartedScheduler ''camp1'' = Some Running
   \<and> statusOf (pauseCampaign ''camp1'' restartedScheduler) ''camp1'' = Some Paused
   \<and> statusOf (startCampaign nineOclock allConnected ''camp1''
         (pauseCampaign ''camp1'' restartedScheduler)) ''camp1'' \<noteq> Some Paused"
proof -
  have st: "stateOf demoOneSent ''camp1'' =
      Some (0, \<lparr>isRunning = True, accountTimeouts = [(''accA'', 0)],
                 messagesSentToday = [(''accA'', 1)], lastResetDate = ''2026-01-01''\<rparr>)"
    by code_simp
  have evs: "\<forall>ev\<in>set afterPause.
      snd (snd ev) \<noteq> StopCampaign ''camp1'' \<and> snd (snd ev) \<noteq> ResetCampaign ''camp1''"
    by (simp add: afterPause_def)
  have reg: "map_of (activeCampaigns demoOneSent) ''camp1'' = Some 0" by code_simp
  have run: "statusOf demoOneSent ''camp1'' = Some Running" by code_simp
  have tm: "armed (run afterPause (pauseCampaign ''camp1'' demoOneSent)) = []" by code_simp
  have nreg: "map_of (activeCampaigns restartedScheduler) ''camp1'' = None" by code_simp
  have stp: "statusOf restartedScheduler ''camp1'' = Some Running" by code_simp
  from run have ne: "statusOf demoOneSent ''camp1'' \<noteq> None" by simp
  from stp have ne': "statusOf restartedScheduler ''camp1'' \<noteq> None" by simp
  note th = start_after_pause_is_noop [OF evs, of demoOneSent 0
      "\<lparr>isRunning = True, accountTimeouts = [(''accA'', 0)],
        messagesSentToday = [(''accA'', 1)], lastResetDate = ''2026-01-01''\<rparr>"
      tenOhOneOhOne allConnected]
  note th' = start_after_pause_is_noop [OF evs, of restartedScheduler _ _ nineOclock allConnected]
  from th st ne have a: "startCampaign tenOhOneOhOne allConnected ''camp1''
         (run afterPause (pauseCampaign ''camp1'' demoOneSent))
       = run afterPause (pauseCampaign ''camp1'' demoOneSent)"
    and b: "statusOf (startCampaign tenOhOneOhOne allConnected ''camp1''
         (run afterPause (pauseCampaign ''camp1'' demoOneSent))) ''camp1'' = Some Paused"
    by blast+
  from th' nreg ne' have c: "statusOf (pauseCampaign ''camp1'' restartedScheduler) ''camp1'' = Some Paused"
    and "statusOf (startCampaign nineOclock allConnected ''camp1''
           (pauseCampaign ''camp1'' restartedScheduler)) ''camp1'' = Some Running
       \<or> statusOf (startCampaign nineOclock allConnected ''camp1''
           (pauseCampaign ''camp1'' restartedScheduler)) ''camp1'' = Some Completed"
    by blast+
  then have d: "statusOf (startCampaign nineOclock allConnected ''camp1''
           (pauseCampaign ''camp1'' restartedScheduler)) ''camp1'' \<noteq> Some Paused"
    by auto
  show ?thesis by (intro conjI reg run tm a b nreg stp c d)
qed

text \<open>
  A campaign that is paused while it has no \<^verbatim>\<open>CampaignState\<close> in the registry is
  not held back: \<^verbatim>\<open>startCampaign\<close> starts it. The demo campaign is
  \<^verbatim>\<open>running\<close> in the store of a scheduler that has not started it yet (the
  process was restarted outside working hours); it is paused, and the call of
  \<^verbatim>\<open>startCampaign\<close> at nine o'clock sets it to \<^verbatim>\<open>running\<close>, and both
  accounts claim a contact. Likewise the campaign that was started with no account, then
  paused: \<^verbatim>\<open>startCampaign\<close> sets it to \<^verbatim>\<open>running\<close> again.
\<close>

theorem start_after_pause_restarts_unregistered:
  "statusOf restartedScheduler ''camp1'' = Some Running
   \<and> activeCampaigns restartedScheduler = []
   \<and> statusOf (pauseCampaign ''camp1'' restartedScheduler) ''camp1'' = Some Paused
   \<and> activeCampaigns (pauseCampaign ''camp1'' restartedScheduler) = []
   \<and> statusOf (startCampaign nineOclock allConnected ''camp1''
         (pauseCampaign ''camp1'' restartedScheduler)) ''camp1'' = Some Running
   \<and> activeCampaigns (startCampaign nineOclock allConnected ''camp1''
         (pauseCampaign ''camp1'' restartedScheduler)) = [(''camp1'', 0)]
   \<and> holders (startCampaign nineOclock allConnected ''camp1''
         (pauseCampaign ''camp1'' restartedScheduler)) = [(''accA'', ''cc1''), (''accB'', ''cc2'')]
   \<and> activeCampaigns (startCampaign tenOclock allConnected ''camp1'' demoNoAccounts) = []
   \<and> statusOf (pauseCampaign ''camp1''
         (startCampaign tenOclock allConnected ''camp1'' demoNoAccounts)) ''camp1'' = Some Paused
   \<and> statusOf (startCampaign tenOclockOne allConnected ''camp1''
         (pauseCampaign ''camp1''
            (startCampaign tenOclock allConnected ''camp1'' demoNoAccounts))) ''camp1'' = Some Running"
  by code_simp

subsection \<open>Failure classification\<close>




lemma awaiting_updateState [simp]: "awaiting (updateState r f s) = awaiting s"
  by (simp add: updateState_def split: option.splits)

lemma awaiting_setTimeout_wake [simp]: "awaiting (setTimeout_wake cid aid delay clk s) = awaiting s"
  by (simp add: setTimeout_wake_def)

lemma awaiting_armWake [simp]: "awaiting (armWake r cid aid delay clk s) = awaiting s"
  by (simp add: armWake_def)

lemma awaiting_clearTimeouts [simp]: "awaiting (clearTimeouts hs s) = awaiting s"
  by (simp add: clearTimeouts_def)

lemma awaiting_haltWorkers [simp]: "awaiting (haltWorkers cid s) = awaiting s"
  by (simp add: haltWorkers_def split: option.splits prod.splits)

lemma awaiting_pauseCampaign [simp]: "awaiting (pauseCampaign cid s) = awaiting s"
  by (simp add: pauseCampaign_def Let_def)

lemma awaiting_stopCampaign [simp]: "awaiting (stopCampaign clk cid s) = awaiting s"
  by (simp add: stopCampaign_def Let_def split: option.splits)

lemma awaiting_resetCampaign [simp]: "awaiting (resetCampaign clk cid s) = awaiting s"
  by (simp add: resetCampaign_def Let_def)

lemma awaiting_completeCampaign [simp]: "awaiting (completeCampaign clk cid s) = awaiting s"
  by (simp add: completeCampaign_def Let_def)

lemma awaiting_resetDailyCountersIfNeeded [simp]:
  "awaiting (resetDailyCountersIfNeeded clk cid s) = awaiting s"
  by (simp add: resetDailyCountersIfNeeded_def split: option.splits prod.splits)

lemma awaiting_sendNext [simp]:
  "awaiting (fst (sendNextMessageFromAccount clk e cid aid r s)) = awaiting s"
  by (simp add: sendNextMessageFromAccount_def Let_def split: option.splits)

lemma awaiting_dailyReset [simp]: "awaiting (dailyReset clk s) = awaiting s"
proof -
  have "awaiting (foldl (\<lambda>s p. updateState (snd p) f s) s ps) = awaiting s" for f ps
    by (induction ps arbitrary: s) simp_all
  then show ?thesis by (simp add: dailyReset_def)
qed

lemma campaign_contacts_updateStats [simp]:
  "campaign_contacts (updateStats clk d) = campaign_contacts d"
  by (simp add: updateStats_def)

lemma campaign_contacts_pauseCampaign [simp]:
  "campaign_contacts (db (pauseCampaign cid s)) = campaign_contacts (db s)"
  by (simp add: db_pauseCampaign)











lemma failedAt_cycleResume [simp]:
  "failedAt i msg cs (cycleResume clk e cid aid m s) = failedAt i msg cs s"
  by (simp add: cycleResume_def failedAt_def split: option.splits microtask.splits)


lemma failedAt_timers [simp]: "failedAt i msg cs (s\<lparr>timers := ts\<rparr>) = failedAt i msg cs s"
  by (simp add: failedAt_def)



lemma failedAt_resumeCycles [simp]:
  "failedAt i msg cs (resumeCycles clk e cid ms s) = failedAt i msg cs s"
  by (induction ms arbitrary: s) simp_all








end
